theory Spec2Isabelle
  imports Complex_Main
begin

section \<open>Kaldi-compatible feature extraction (torchaudio/compliance/kaldi.py)\<close>

text \<open>
  The embedding follows the Python source function by function. Conventions:
  \<^item> a float is a \<open>real\<close>: the model is the exact-arithmetic reading of the code, so
    rounding, infinities and NaN are not represented;
  \<^item> a Python integer is an \<open>int\<close>; \<open>//\<close> is \<open>div\<close> (both round towards minus infinity);
  \<^item> a tensor of values is the list of its elements (1-D) or of its rows (2-D; the
    column count of a tensor without rows is not represented); a waveform that comes in
    from the caller also carries its element stride, since the Framer reads it;
  \<^item> device and dtype arguments are dropped;
  \<^item> every \<open>assert\<close>, \<open>raise\<close> and library error of the source is a value \<open>Inl e\<close>;
  \<^item> a leading underscore of a Python name is dropped (\<open>_get_strided\<close> is \<open>get_strided\<close>).
\<close>

subsection \<open>Errors and Python primitives\<close>

datatype error =
    AssertionError string
  | ZeroDivisionError
  | ValueError
  | IndexError
  | RuntimeError
  | Exception string

text \<open>\<open>int(x)\<close> on a float truncates towards zero.\<close>

definition py_int :: "real \<Rightarrow> int" where
  "py_int x = (if 0 \<le> x then \<lfloor>x\<rfloor> else \<lceil>x\<rceil>)"

text \<open>\<open>xs[k:]\<close> and \<open>xs[:k]\<close>: a negative bound counts from the end, and bounds are clipped.\<close>

definition slice_from :: "'a list \<Rightarrow> int \<Rightarrow> 'a list" where
  "slice_from xs k =
     (if k < 0 then drop (nat (max 0 (int (length xs) + k))) xs else drop (nat k) xs)"

definition slice_to :: "'a list \<Rightarrow> int \<Rightarrow> 'a list" where
  "slice_to xs k =
     (if k < 0 then take (nat (max 0 (int (length xs) + k))) xs else take (nat k) xs)"

text \<open>\<open>int.bit_length()\<close>: the number of binary digits of the absolute value.\<close>

fun bit_length_nat :: "nat \<Rightarrow> nat" where
  "bit_length_nat n = (if n = 0 then 0 else Suc (bit_length_nat (n div 2)))"

declare bit_length_nat.simps [simp del]

definition bit_length :: "int \<Rightarrow> nat" where
  "bit_length x = bit_length_nat (nat \<bar>x\<bar>)"

subsection \<open>Constants\<close>

text \<open>\<open>torch.finfo(torch.float).eps\<close>, 1.1920928955078125e-07, is \<open>2\<^sup>-\<^sup>2\<^sup>3\<close>.\<close>

definition EPSILON :: real where
  "EPSILON = 1 / 2 ^ 23"

definition MILLISECONDS_TO_SECONDS :: real where
  "MILLISECONDS_TO_SECONDS = 1 / 1000"

definition HAMMING :: string where "HAMMING = ''hamming''"
definition HANNING :: string where "HANNING = ''hanning''"
definition POVEY :: string where "POVEY = ''povey''"
definition RECTANGULAR :: string where "RECTANGULAR = ''rectangular''"
definition BLACKMAN :: string where "BLACKMAN = ''blackman''"

definition get_epsilon :: real where
  "get_epsilon = EPSILON"

definition next_power_of_2 :: "int \<Rightarrow> int" where
  "next_power_of_2 x = (if x = 0 then 1 else 2 ^ bit_length (x - 1))"

subsection \<open>Framer: \<open>_get_strided\<close>\<close>

text \<open>
  A 1-D tensor is a view: the elements it shows, in order, and its element stride in
  storage (\<open>waveform.stride(0)\<close>); the storage outside these elements is not represented.
  A tensor that an operation returns fresh (\<open>torch.flip\<close>, \<open>torch.cat\<close>) is contiguous: its
  stride is 1 and its elements are its whole storage.
\<close>

record view1d =
  v_elems :: "real list"
  v_stride :: nat

definition contiguous :: "real list \<Rightarrow> view1d" where
  "contiguous xs = \<lparr>v_elems = xs, v_stride = 1\<rparr>"

text \<open>
  A view of stride 0 (an expanded tensor) shows one storage cell again and again, so its
  elements are all equal; every view the library hands out satisfies this.
\<close>

definition view_ok :: "view1d \<Rightarrow> bool" where
  "view_ok t = (v_stride t = 0 \<longrightarrow> (\<forall>x \<in> set (v_elems t). x = v_elems t ! 0))"

text \<open>
  The storage cell at the offset \<open>p\<close> from the start of a view: element \<open>p div stride\<close> when
  \<open>p\<close> is a multiple of the stride and that element exists (with stride 0 every element is
  the one cell at offset 0); any other cell is outside the view.
\<close>

definition view_cell :: "view1d \<Rightarrow> nat \<Rightarrow> real option" where
  "view_cell t p =
     (if v_stride t = 0 then
        (if p = 0 \<and> v_elems t \<noteq> [] then Some (v_elems t ! 0) else None)
      else if p mod v_stride t = 0 \<and> p div v_stride t < length (v_elems t) then
        Some (v_elems t ! (p div v_stride t))
      else None)"

text \<open>
  \<open>Tensor.as_strided(sizes, strides)\<close>: entry \<open>(i, j)\<close> of the result is the storage cell at
  the offset \<open>i * strides\<^sub>0 + j * strides\<^sub>1\<close> from the start of the tensor. The library refuses
  negative sizes and strides and a result that reaches past the storage. On a contiguous
  tensor the cells outside the view are exactly those past the storage. On an incoming
  view they are storage the model does not represent, and the model refuses them too;
  \<open>_get_strided\<close> never asks for one on the incoming view.
\<close>

definition as_strided :: "view1d \<Rightarrow> int \<times> int \<Rightarrow> int \<times> int \<Rightarrow> error + real list list" where
  "as_strided t sizes strides =
     (case sizes of (m, k) \<Rightarrow> case strides of (s0, s1) \<Rightarrow>
        if m < 0 \<or> k < 0 \<or> s0 < 0 \<or> s1 < 0 then Inl RuntimeError
        else
          let cells = map (\<lambda>i. map (\<lambda>j. view_cell t (nat (int i * s0 + int j * s1))) [0..<nat k])
                          [0..<nat m]
          in if \<exists>row \<in> set cells. None \<in> set row then Inl RuntimeError
             else Inr (map (map the) cells))"

text \<open>
  The strides are computed once, from the incoming waveform (source line 66), and used
  at the end (line 88) on whatever \<open>waveform\<close> is then bound to: the incoming view when
  \<open>snip_edges\<close> is true, the fresh concatenation otherwise.
\<close>

definition get_strided :: "view1d \<Rightarrow> int \<Rightarrow> int \<Rightarrow> bool \<Rightarrow> error + real list list" where
  "get_strided waveform window_size window_shift snip_edges =
     (let num_samples = int (length (v_elems waveform));
          strides = (window_shift * int (v_stride waveform), int (v_stride waveform))
      in if snip_edges then
           (if num_samples < window_size then Inr []
            else if window_shift = 0 then Inl ZeroDivisionError
            else
              let m = 1 + (num_samples - window_size) div window_shift
              in as_strided waveform (m, window_size) strides)
         else
           (let reversed_waveform = rev (v_elems waveform)
            in if window_shift = 0 then Inl ZeroDivisionError
               else
                 let m = (num_samples + window_shift div 2) div window_shift;
                     pad = window_size div 2 - window_shift div 2;
                     pad_right = reversed_waveform;
                     padded =
                       (if 0 < pad then
                          (let pad_left = slice_from reversed_waveform (- pad)
                           in contiguous (pad_left @ v_elems waveform @ pad_right))
                        else contiguous (slice_from (v_elems waveform) (- pad) @ pad_right))
                 in as_strided padded (m, window_size) strides))"

text \<open>The Framer as the specification words it, for comparison with the code.\<close>

definition frames_of :: "real list \<Rightarrow> nat \<Rightarrow> nat \<Rightarrow> nat \<Rightarrow> real list list" where
  "frames_of signal m window_size window_shift =
     map (\<lambda>i. take window_size (drop (i * window_shift) signal)) [0..<m]"

definition snip_frame_count :: "int \<Rightarrow> int \<Rightarrow> int \<Rightarrow> int" where
  "snip_frame_count n window_size window_shift = 1 + (n - window_size) div window_shift"

definition reflect_frame_count :: "int \<Rightarrow> int \<Rightarrow> int" where
  "reflect_frame_count n window_shift = (n + window_shift div 2) div window_shift"

definition last_n :: "nat \<Rightarrow> 'a list \<Rightarrow> 'a list" where
  "last_n k xs = drop (length xs - k) xs"

definition reflect_extend :: "real list \<Rightarrow> int \<Rightarrow> real list" where
  "reflect_extend w pad =
     (if 0 < pad then last_n (nat pad) (rev w) @ w @ rev w
      else drop (nat (- pad)) w @ rev w)"

subsection \<open>Tensor primitives of the array backend\<close>

text \<open>
  The numeric backend is an external collaborator; only the operations the source calls
  are modelled, on the shapes the source calls them with.
\<close>

definition err_bind :: "error + 'a \<Rightarrow> ('a \<Rightarrow> error + 'b) \<Rightarrow> error + 'b" where
  "err_bind r f = (case r of Inl e \<Rightarrow> Inl e | Inr x \<Rightarrow> f x)"

text \<open>
  The value a feature function returns: \<open>torch.empty(0)\<close>, the 1-D tensor without elements,
  or a matrix of features.
\<close>

datatype tensor = Empty1D | Matrix "real list list"

text \<open>\<open>torch.arange(n)\<close> for an integer count (no element when \<open>n \<le> 0\<close>).\<close>

definition arange :: "int \<Rightarrow> real list" where
  "arange n = map real [0..<nat n]"

definition ncols :: "'a list list \<Rightarrow> nat" where
  "ncols M = (case M of [] \<Rightarrow> 0 | r # _ \<Rightarrow> length r)"

text \<open>\<open>M.T\<close>\<close>

definition matT :: "'a list list \<Rightarrow> 'a list list" where
  "matT M = map (\<lambda>j. map (\<lambda>row. row ! j) M) [0..<ncols M]"

text \<open>\<open>torch.mm(A, B)\<close>: the inner dimensions must agree.\<close>

definition torch_mm :: "real list list \<Rightarrow> real list list \<Rightarrow> error + real list list" where
  "torch_mm A B =
     (if \<exists>row \<in> set A. length row \<noteq> length B then Inl RuntimeError
      else Inr (map (\<lambda>row. map (\<lambda>j. \<Sum>t < length B. row ! t * B ! t ! j) [0..<ncols B]) A))"

text \<open>\<open>torch.mean(M, dim=1)\<close> and \<open>torch.mean(M, dim=0)\<close>\<close>

definition row_means :: "real list list \<Rightarrow> real list" where
  "row_means M = map (\<lambda>row. sum_list row / real (length row)) M"

definition col_means :: "real list list \<Rightarrow> real list" where
  "col_means M = map (\<lambda>j. (\<Sum>row \<leftarrow> M. row ! j) / real (length M)) [0..<ncols M]"

text \<open>\<open>res[mask] = values[mask]\<close> on tensors of one shape.\<close>

definition masked_assign :: "'a list \<Rightarrow> bool list \<Rightarrow> 'a list \<Rightarrow> 'a list" where
  "masked_assign res msk vals = map (\<lambda>(r, b, v). if b then v else r) (zip res (zip msk vals))"

definition masked_assign2 :: "'a list list \<Rightarrow> bool list list \<Rightarrow> 'a list list \<Rightarrow> 'a list list" where
  "masked_assign2 res msk vals =
     map (\<lambda>(r, b, v). masked_assign r b v) (zip res (zip msk vals))"

text \<open>\<open>M[:, 0] = column\<close>\<close>

definition set_column0 :: "real list list \<Rightarrow> real list \<Rightarrow> real list list" where
  "set_column0 M column = map2 (\<lambda>row e. row[0 := e]) M column"

text \<open>
  Modelled from the spec: the real-input half-spectrum FFT
  (\<open>torchaudio._internal.fft.rfft\<close> is not under src/): an input of length \<open>L\<close> gives the
  \<open>L div 2 + 1\<close> complex bins \<open>k = 0, \<dots>, L div 2\<close> of the discrete Fourier transform.
\<close>

definition rfft :: "real list \<Rightarrow> complex list" where
  "rfft x =
     map (\<lambda>k. \<Sum>n < length x. of_real (x ! n) * cis (- 2 * pi * real k * real n / real (length x)))
         [0..<length x div 2 + 1]"

text \<open>
  Modelled from the spec: the orthonormal DCT-II basis generator
  (\<open>torchaudio.functional.create_dct\<close> is not under src/), as a matrix of \<open>n_mels\<close> rows and
  \<open>n_mfcc\<close> columns.
\<close>

definition create_dct :: "nat \<Rightarrow> nat \<Rightarrow> real list list" where
  "create_dct n_mfcc n_mels =
     map (\<lambda>n. map (\<lambda>k. cos (pi / real n_mels * (real n + 1 / 2) * real k)
                           * (if k = 0 then 1 / sqrt 2 else 1) * sqrt (2 / real n_mels))
                  [0..<n_mfcc])
         [0..<n_mels]"

subsection \<open>WindowProcessor\<close>

text \<open>
  \<open>torch.hann_window\<close> and \<open>torch.hamming_window\<close> with \<open>periodic=False\<close>. The library
  refuses a negative length there, as in \<open>torch.ones\<close> and \<open>torch.arange\<close>; the callers
  below test for it before they use these functions.
\<close>

definition hann_window :: "int \<Rightarrow> real list" where
  "hann_window N =
     (if N = 1 then [1]
      else map (\<lambda>k. 1 / 2 - 1 / 2 * cos (2 * pi * k / real_of_int (N - 1))) (arange N))"

definition hamming_window :: "int \<Rightarrow> real \<Rightarrow> real \<Rightarrow> real list" where
  "hamming_window N alpha beta =
     (if N = 1 then [1]
      else map (\<lambda>k. alpha - beta * cos (2 * pi * k / real_of_int (N - 1))) (arange N))"

definition feature_window_function :: "string \<Rightarrow> int \<Rightarrow> real \<Rightarrow> error + real list" where
  "feature_window_function window_type window_size blackman_coeff =
     (if window_type = HANNING then
        (if window_size < 0 then Inl RuntimeError else Inr (hann_window window_size))
      else if window_type = HAMMING then
        (if window_size < 0 then Inl RuntimeError
         else Inr (hamming_window window_size (54 / 100) (46 / 100)))
      else if window_type = POVEY then
        (if window_size < 0 then Inl RuntimeError
         else Inr (map (\<lambda>x. x powr (85 / 100)) (hann_window window_size)))
      else if window_type = RECTANGULAR then
        (if window_size < 0 then Inl RuntimeError else Inr (replicate (nat window_size) 1))
      else if window_type = BLACKMAN then
        (if window_size - 1 = 0 then Inl ZeroDivisionError
         else if window_size < 0 then Inl RuntimeError
         else
           let a = 2 * pi / real_of_int (window_size - 1);
               window_function = arange window_size
           in Inr (map (\<lambda>k. blackman_coeff - 1 / 2 * cos (a * k)
                              + (1 / 2 - blackman_coeff) * cos (2 * a * k)) window_function))
      else Inl (Exception (''Invalid window type '' @ window_type)))"

text \<open>\<open>math.log\<close> raises \<open>ValueError\<close> on a negative argument (and on zero, which the test
  \<open>energy_floor == 0.0\<close> excludes here).\<close>

definition get_log_energy :: "real list list \<Rightarrow> real \<Rightarrow> real \<Rightarrow> error + real list" where
  "get_log_energy strided_input epsilon energy_floor =
     (let log_energy = map (\<lambda>row. ln (max (sum_list (map (\<lambda>x. x ^ 2) row)) epsilon)) strided_input
      in if energy_floor = 0 then Inr log_energy
         else if energy_floor < 0 then Inl ValueError
         else Inr (map (\<lambda>e. max e (ln energy_floor)) log_energy))"

text \<open>
  The waveform a feature function receives is a 2-D tensor: its rows (the channels) and
  its stride along the samples (\<open>waveform.stride(1)\<close>, 1 unless the caller passes a view such
  as a transposed tensor). \<open>waveform[channel, :]\<close> is a view of one row with that stride.
\<close>

record waveform2d =
  w_rows :: "real list list"
  w_stride :: nat

definition contiguous2 :: "real list list \<Rightarrow> waveform2d" where
  "contiguous2 rows = \<lparr>w_rows = rows, w_stride = 1\<rparr>"

definition get_waveform_and_window_properties ::
  "waveform2d \<Rightarrow> int \<Rightarrow> real \<Rightarrow> real \<Rightarrow> real \<Rightarrow> bool \<Rightarrow> real
     \<Rightarrow> error + (view1d \<times> int \<times> int \<times> int)" where
  "get_waveform_and_window_properties waveform channel sample_frequency frame_shift frame_length
       round_to_power_of_two preemphasis_coefficient =
     (let channel = max channel 0
      in if \<not> channel < int (length (w_rows waveform)) then
           Inl (AssertionError ''Invalid channel {} for size {}'')
         else
           let waveform = \<lparr>v_elems = w_rows waveform ! nat channel, v_stride = w_stride waveform\<rparr>;
               window_shift = py_int (sample_frequency * frame_shift * MILLISECONDS_TO_SECONDS);
               window_size = py_int (sample_frequency * frame_length * MILLISECONDS_TO_SECONDS);
               padded_window_size =
                 (if round_to_power_of_two then next_power_of_2 window_size else window_size)
           in if \<not> (2 \<le> window_size \<and> window_size \<le> int (length (v_elems waveform))) then
                Inl (AssertionError ''choose a window size {} that is [2, {}]'')
              else if \<not> 0 < window_shift then
                Inl (AssertionError ''`window_shift` must be greater than 0'')
              else if \<not> padded_window_size mod 2 = 0 then
                Inl (AssertionError ''the padded `window_size` must be divisible by two. use `round_to_power_of_two` or change `frame_length`'')
              else if \<not> (0 \<le> preemphasis_coefficient \<and> preemphasis_coefficient \<le> 1) then
                Inl (AssertionError ''`preemphasis_coefficient` must be between [0,1]'')
              else if \<not> sample_frequency > 0 then
                Inl (AssertionError ''`sample_frequency` must be greater than zero'')
              else Inr (waveform, window_shift, window_size, padded_window_size))"

text \<open>
  \<open>torch.rand\<close> is the argument \<open>rand\<close>: \<open>rand i j\<close> is the uniform sample drawn for
  element \<open>(i, j)\<close>.
\<close>

definition rand_like :: "(nat \<Rightarrow> nat \<Rightarrow> real) \<Rightarrow> real list list \<Rightarrow> real list list" where
  "rand_like rand M = map (\<lambda>i. map (\<lambda>j. rand i j) [0..<length (M ! i)]) [0..<length M]"

text \<open>
  \<open>torch.nn.functional.pad(x, (1, 0), mode='replicate')\<close> on the rows. The library refuses
  a tensor without elements (no frame, or frames without samples); \<open>get_window\<close> tests for
  that before it pads.
\<close>

definition pad_replicate_left :: "real list \<Rightarrow> real list" where
  "pad_replicate_left row = (case row of [] \<Rightarrow> [] | x # _ \<Rightarrow> x # row)"

text \<open>
  Constant padding on the right by a negative amount crops the rows; the library refuses
  a width that does not stay positive. (Every caller passes
  \<open>padded_window_size \<ge> window_size\<close>.)
\<close>

definition get_window ::
  "(nat \<Rightarrow> nat \<Rightarrow> real) \<Rightarrow> view1d \<Rightarrow> int \<Rightarrow> int \<Rightarrow> int \<Rightarrow> string \<Rightarrow> real \<Rightarrow> bool \<Rightarrow> bool
     \<Rightarrow> real \<Rightarrow> real \<Rightarrow> bool \<Rightarrow> real \<Rightarrow> error + (real list list \<times> real list)" where
  "get_window rand waveform padded_window_size window_size window_shift window_type blackman_coeff
       snip_edges raw_energy energy_floor dither remove_dc_offset preemphasis_coefficient =
     (let epsilon = get_epsilon
      in err_bind (get_strided waveform window_size window_shift snip_edges) (\<lambda>strided_input.
         let strided_input =
               (if dither \<noteq> 0 then
                  (let x = map (map (max epsilon)) (rand_like rand strided_input);
                       rand_gauss = map (map (\<lambda>x. sqrt (- 2 * ln x) * cos (2 * pi * x))) x
                   in map2 (map2 (\<lambda>s g. s + g * dither)) strided_input rand_gauss)
                else strided_input);
             strided_input =
               (if remove_dc_offset then
                  map2 (\<lambda>row mean. map (\<lambda>s. s - mean) row) strided_input (row_means strided_input)
                else strided_input)
         in err_bind (if raw_energy then get_log_energy strided_input epsilon energy_floor
                      else Inr []) (\<lambda>raw_log_energy.
         err_bind (if preemphasis_coefficient \<noteq> 0 then
                     (if strided_input = [] \<or> [] \<in> set strided_input then Inl RuntimeError
                      else Inr (map (\<lambda>row. map2 (\<lambda>s off. s - preemphasis_coefficient * off)
                                                 row (butlast (pad_replicate_left row)))
                                    strided_input))
                   else Inr strided_input) (\<lambda>strided_input.
         err_bind (feature_window_function window_type window_size blackman_coeff)
              (\<lambda>window_function.
         let strided_input = map (\<lambda>row. map2 (*) row window_function) strided_input
         in err_bind (if padded_window_size \<noteq> window_size then
                        (let padding_right = padded_window_size - window_size
                         in if 0 \<le> padding_right then
                              Inr (map (\<lambda>row. row @ replicate (nat padding_right) 0) strided_input)
                            else if \<exists>row \<in> set strided_input. int (length row) + padding_right \<le> 0
                            then Inl RuntimeError
                            else Inr (map (\<lambda>row. take (nat (int (length row) + padding_right)) row)
                                          strided_input))
                      else Inr strided_input) (\<lambda>strided_input.
         err_bind (if \<not> raw_energy then get_log_energy strided_input epsilon energy_floor
                      else Inr raw_log_energy) (\<lambda>signal_log_energy.
         Inr (strided_input, signal_log_energy))))))))"

definition subtract_column_mean :: "real list list \<Rightarrow> bool \<Rightarrow> real list list" where
  "subtract_column_mean tensor subtract_mean =
     (if subtract_mean then
        map (\<lambda>row. map2 (\<lambda>v mean. v - mean) row (col_means tensor)) tensor
      else tensor)"

subsection \<open>Keyword arguments of the feature functions\<close>

record options =
  kw_blackman_coeff :: real
  kw_cepstral_lifter :: real
  kw_channel :: int
  kw_dither :: real
  kw_energy_floor :: real
  kw_frame_length :: real
  kw_frame_shift :: real
  kw_high_freq :: real
  kw_htk_compat :: bool
  kw_low_freq :: real
  kw_num_ceps :: int
  kw_min_duration :: real
  kw_num_mel_bins :: int
  kw_preemphasis_coefficient :: real
  kw_raw_energy :: bool
  kw_remove_dc_offset :: bool
  kw_round_to_power_of_two :: bool
  kw_sample_frequency :: real
  kw_snip_edges :: bool
  kw_subtract_mean :: bool
  kw_use_energy :: bool
  kw_use_log_fbank :: bool
  kw_use_power :: bool
  kw_vtln_high :: real
  kw_vtln_low :: real
  kw_vtln_warp :: real
  kw_window_type :: string

text \<open>The default values of the signatures.\<close>

definition defaults :: options where
  "defaults = \<lparr>
     kw_blackman_coeff = 42 / 100, kw_cepstral_lifter = 22, kw_channel = - 1, kw_dither = 0,
     kw_energy_floor = 1, kw_frame_length = 25, kw_frame_shift = 10, kw_high_freq = 0,
     kw_htk_compat = False, kw_low_freq = 20, kw_num_ceps = 13, kw_min_duration = 0,
     kw_num_mel_bins = 23, kw_preemphasis_coefficient = 97 / 100, kw_raw_energy = True,
     kw_remove_dc_offset = True, kw_round_to_power_of_two = True, kw_sample_frequency = 16000,
     kw_snip_edges = True, kw_subtract_mean = False, kw_use_energy = False,
     kw_use_log_fbank = True, kw_use_power = True, kw_vtln_high = - 500, kw_vtln_low = 100,
     kw_vtln_warp = 1, kw_window_type = POVEY \<rparr>"

subsection \<open>SpectrumEngine: \<open>spectrogram\<close>\<close>

definition spectrogram :: "(nat \<Rightarrow> nat \<Rightarrow> real) \<Rightarrow> options \<Rightarrow> waveform2d \<Rightarrow> error + tensor" where
  "spectrogram rand kw waveform =
     (let epsilon = get_epsilon
      in err_bind (get_waveform_and_window_properties waveform (kw_channel kw)
                     (kw_sample_frequency kw) (kw_frame_shift kw) (kw_frame_length kw)
                     (kw_round_to_power_of_two kw) (kw_preemphasis_coefficient kw))
           (\<lambda>(waveform, window_shift, window_size, padded_window_size).
         if real (length (v_elems waveform)) < kw_min_duration kw * kw_sample_frequency kw then Inr Empty1D
         else
           err_bind (get_window rand waveform padded_window_size window_size window_shift
                       (kw_window_type kw) (kw_blackman_coeff kw) (kw_snip_edges kw)
                       (kw_raw_energy kw) (kw_energy_floor kw) (kw_dither kw)
                       (kw_remove_dc_offset kw) (kw_preemphasis_coefficient kw))
             (\<lambda>(strided_input, signal_log_energy).
           let fft = map rfft strided_input;
               power_spectrum = map (map (\<lambda>z. ln (max ((cmod z) ^ 2) epsilon))) fft;
               power_spectrum = set_column0 power_spectrum signal_log_energy;
               power_spectrum = subtract_column_mean power_spectrum (kw_subtract_mean kw)
           in Inr (Matrix power_spectrum))))"

subsection \<open>MelBankBuilder: mel scale, VTLN warp, \<open>get_mel_banks\<close>\<close>

definition inverse_mel_scale_scalar :: "real \<Rightarrow> real" where
  "inverse_mel_scale_scalar mel_freq = 700 * (exp (mel_freq / 1127) - 1)"

definition inverse_mel_scale :: "real list \<Rightarrow> real list" where
  "inverse_mel_scale mel_freq = map (\<lambda>m. 700 * (exp (m / 1127) - 1)) mel_freq"

definition mel_scale_scalar :: "real \<Rightarrow> real" where
  "mel_scale_scalar freq = 1127 * ln (1 + freq / 700)"

definition mel_scale :: "real list \<Rightarrow> real list" where
  "mel_scale freq = map (\<lambda>f. 1127 * ln (1 + f / 700)) freq"

text \<open>
  \<open>torch.empty_like(freq)\<close> is uninitialised; the model starts from zeros. The masks
  \<open>before_h\<close> and \<open>after_h\<close> are complementary, so every element is assigned.
\<close>

definition vtln_warp_freq :: "real \<Rightarrow> real \<Rightarrow> real \<Rightarrow> real \<Rightarrow> real \<Rightarrow> real list \<Rightarrow> error + real list" where
  "vtln_warp_freq vtln_low_cutoff vtln_high_cutoff low_freq high_freq vtln_warp_factor freq =
     (if \<not> vtln_low_cutoff > low_freq then
        Inl (AssertionError ''be sure to set the vtln_low option higher than low_freq'')
      else if \<not> vtln_high_cutoff < high_freq then
        Inl (AssertionError ''be sure to set the vtln_high option lower than high_freq [or negative]'')
      else
        let l = vtln_low_cutoff * max 1 vtln_warp_factor;
            h = vtln_high_cutoff * min 1 vtln_warp_factor
        in if vtln_warp_factor = 0 then Inl ZeroDivisionError
           else
             let scale = 1 / vtln_warp_factor;
                 Fl = scale * l;
                 Fh = scale * h
             in if \<not> (l > low_freq \<and> h < high_freq) then Inl (AssertionError [])
                else
                  let scale_left = (Fl - low_freq) / (l - low_freq);
                      scale_right = (high_freq - Fh) / (high_freq - h);
                      res = map (\<lambda>f. 0) freq;
                      outside_low_high_freq = map (\<lambda>f. f < low_freq \<or> f > high_freq) freq;
                      before_l = map (\<lambda>f. f < l) freq;
                      before_h = map (\<lambda>f. f < h) freq;
                      after_h = map (\<lambda>f. f \<ge> h) freq;
                      res = masked_assign res after_h
                              (map (\<lambda>f. high_freq + scale_right * (f - high_freq)) freq);
                      res = masked_assign res before_h (map (\<lambda>f. scale * f) freq);
                      res = masked_assign res before_l
                              (map (\<lambda>f. low_freq + scale_left * (f - low_freq)) freq);
                      res = masked_assign res outside_low_high_freq freq
                  in Inr res)"

definition vtln_warp_mel_freq :: "real \<Rightarrow> real \<Rightarrow> real \<Rightarrow> real \<Rightarrow> real \<Rightarrow> real list \<Rightarrow> error + real list" where
  "vtln_warp_mel_freq vtln_low_cutoff vtln_high_cutoff low_freq high_freq vtln_warp_factor mel_freq =
     err_bind (vtln_warp_freq vtln_low_cutoff vtln_high_cutoff low_freq high_freq
                 vtln_warp_factor (inverse_mel_scale mel_freq))
       (\<lambda>warped. Inr (mel_scale warped))"

text \<open>
  \<open>left_mel\<close>, \<open>center_mel\<close> and \<open>right_mel\<close> are columns (one entry per mel bin) and
  \<open>mel\<close> is a row (one entry per FFT bin); their broadcast differences are matrices of
  one row per mel bin.
\<close>

definition get_mel_banks ::
  "int \<Rightarrow> int \<Rightarrow> real \<Rightarrow> real \<Rightarrow> real \<Rightarrow> real \<Rightarrow> real \<Rightarrow> real \<Rightarrow> error + (real list list \<times> real list)" where
  "get_mel_banks num_bins window_length_padded sample_freq low_freq high_freq vtln_low vtln_high
       vtln_warp_factor =
     (if \<not> num_bins > 3 then Inl (AssertionError ''Must have at least 3 mel bins'')
      else if \<not> window_length_padded mod 2 = 0 then Inl (AssertionError [])
      else
        let num_fft_bins = real_of_int window_length_padded / 2;
            nyquist = 1 / 2 * sample_freq;
            high_freq = (if high_freq \<le> 0 then high_freq + nyquist else high_freq)
        in if \<not> ((0 \<le> low_freq \<and> low_freq < nyquist) \<and> (0 < high_freq \<and> high_freq \<le> nyquist)
                  \<and> low_freq < high_freq) then
             Inl (AssertionError ''Bad values in options: low-freq {} and high-freq {} vs. nyquist {}'')
           else if window_length_padded = 0 then Inl ZeroDivisionError
           else
             let fft_bin_width = sample_freq / real_of_int window_length_padded;
                 mel_low_freq = mel_scale_scalar low_freq;
                 mel_high_freq = mel_scale_scalar high_freq;
                 mel_freq_delta = (mel_high_freq - mel_low_freq) / real_of_int (num_bins + 1);
                 vtln_high = (if vtln_high < 0 then vtln_high + nyquist else vtln_high)
             in if \<not> (vtln_warp_factor = 1
                       \<or> ((low_freq < vtln_low \<and> vtln_low < high_freq)
                           \<and> (0 < vtln_high \<and> vtln_high < high_freq) \<and> vtln_low < vtln_high)) then
                  Inl (AssertionError ''Bad values in options: vtln-low {} and vtln-high {}, versus low-freq {} and high-freq {}'')
                else
                  let bin = arange num_bins;
                      left_mel = map (\<lambda>b. mel_low_freq + b * mel_freq_delta) bin;
                      center_mel = map (\<lambda>b. mel_low_freq + (b + 1) * mel_freq_delta) bin;
                      right_mel = map (\<lambda>b. mel_low_freq + (b + 2) * mel_freq_delta) bin
                  in err_bind
                       (if vtln_warp_factor \<noteq> 1 then
                          err_bind (vtln_warp_mel_freq vtln_low vtln_high low_freq high_freq
                                      vtln_warp_factor left_mel) (\<lambda>left_mel.
                          err_bind (vtln_warp_mel_freq vtln_low vtln_high low_freq high_freq
                                      vtln_warp_factor center_mel) (\<lambda>center_mel.
                          err_bind (vtln_warp_mel_freq vtln_low vtln_high low_freq high_freq
                                      vtln_warp_factor right_mel) (\<lambda>right_mel.
                          Inr (left_mel, center_mel, right_mel))))
                        else Inr (left_mel, center_mel, right_mel))
                       (\<lambda>(left_mel, center_mel, right_mel).
                     let center_freqs = inverse_mel_scale center_mel
                     in if num_fft_bins < 0 then Inl RuntimeError
                        else
                          let mel = mel_scale (map (\<lambda>j. fft_bin_width * j)
                                                   (arange \<lceil>num_fft_bins\<rceil>));
                              up_slope = map2 (\<lambda>left center. map (\<lambda>m. (m - left) / (center - left)) mel)
                                              left_mel center_mel;
                              down_slope = map2 (\<lambda>right center. map (\<lambda>m. (right - m) / (right - center)) mel)
                                                right_mel center_mel
                          in if vtln_warp_factor = 1 then
                               Inr (map2 (map2 (\<lambda>u d. max 0 (min u d))) up_slope down_slope,
                                    center_freqs)
                             else
                               let bins = map (map (\<lambda>u. 0)) up_slope;
                                   up_idx = map2 (\<lambda>left center. map (\<lambda>m. m > left \<and> m \<le> center) mel)
                                                 left_mel center_mel;
                                   down_idx = map2 (\<lambda>center right. map (\<lambda>m. m > center \<and> m < right) mel)
                                                   center_mel right_mel;
                                   bins = masked_assign2 bins up_idx up_slope;
                                   bins = masked_assign2 bins down_idx down_slope
                               in Inr (bins, center_freqs)))"

subsection \<open>FilterbankEngine: \<open>fbank\<close>\<close>

definition fbank :: "(nat \<Rightarrow> nat \<Rightarrow> real) \<Rightarrow> options \<Rightarrow> waveform2d \<Rightarrow> error + tensor" where
  "fbank rand kw waveform =
     err_bind (get_waveform_and_window_properties waveform (kw_channel kw)
                 (kw_sample_frequency kw) (kw_frame_shift kw) (kw_frame_length kw)
                 (kw_round_to_power_of_two kw) (kw_preemphasis_coefficient kw))
       (\<lambda>(waveform, window_shift, window_size, padded_window_size).
     if real (length (v_elems waveform)) < kw_min_duration kw * kw_sample_frequency kw then Inr Empty1D
     else
       err_bind (get_window rand waveform padded_window_size window_size window_shift
                   (kw_window_type kw) (kw_blackman_coeff kw) (kw_snip_edges kw)
                   (kw_raw_energy kw) (kw_energy_floor kw) (kw_dither kw)
                   (kw_remove_dc_offset kw) (kw_preemphasis_coefficient kw))
         (\<lambda>(strided_input, signal_log_energy).
       let spectrum = map (\<lambda>row. map cmod (rfft row)) strided_input;
           spectrum = (if kw_use_power kw then map (map (\<lambda>x. x ^ 2)) spectrum else spectrum)
       in err_bind (get_mel_banks (kw_num_mel_bins kw) padded_window_size (kw_sample_frequency kw)
                      (kw_low_freq kw) (kw_high_freq kw) (kw_vtln_low kw) (kw_vtln_high kw)
                      (kw_vtln_warp kw))
            (\<lambda>(mel_energies, center_freqs).
          let mel_energies = map (\<lambda>row. row @ [0]) mel_energies
          in err_bind (torch_mm spectrum (matT mel_energies)) (\<lambda>mel_energies.
             let mel_energies =
                   (if kw_use_log_fbank kw then map (map (\<lambda>x. ln (max x get_epsilon))) mel_energies
                    else mel_energies);
                 mel_energies =
                   (if kw_use_energy kw then
                      (if kw_htk_compat kw then
                         map2 (\<lambda>row e. row @ [e]) mel_energies signal_log_energy
                       else map2 (\<lambda>row e. e # row) mel_energies signal_log_energy)
                    else mel_energies);
                 mel_energies = subtract_column_mean mel_energies (kw_subtract_mean kw)
             in Inr (Matrix mel_energies)))))"

subsection \<open>CepstralEngine: \<open>mfcc\<close>\<close>

text \<open>
  \<open>create_dct\<close> has no basis for a negative size, and \<open>1 / float(num_mel_bins)\<close> divides by
  the size (as \<open>create_dct\<close> itself does in \<open>math.pi / float(n_mels)\<close>).
  \<open>dct_matrix[:, 0] = c\<close> overwrites the first entry of every row.
\<close>

definition get_dct_matrix :: "int \<Rightarrow> int \<Rightarrow> error + real list list" where
  "get_dct_matrix num_ceps num_mel_bins =
     (if num_mel_bins < 0 then Inl RuntimeError
      else if num_mel_bins = 0 then Inl ZeroDivisionError
      else
        let dct_matrix = create_dct (nat num_mel_bins) (nat num_mel_bins);
            dct_matrix = map (\<lambda>row. row[0 := sqrt (1 / real_of_int num_mel_bins)]) dct_matrix;
            dct_matrix = map (\<lambda>row. slice_to row num_ceps) dct_matrix
        in Inr dct_matrix)"

definition get_lifter_coeffs :: "int \<Rightarrow> real \<Rightarrow> error + real list" where
  "get_lifter_coeffs num_ceps cepstral_lifter =
     (if num_ceps < 0 then Inl RuntimeError
      else
        let i = arange num_ceps
        in Inr (map (\<lambda>i. 1 + 1 / 2 * cepstral_lifter * sin (pi * i / cepstral_lifter)) i))"

text \<open>
  The part of \<open>mfcc\<close> up to and including the overwrite of column 0 by the energy
  (source lines 703 to 740), on the feature matrix \<open>fbank\<close> returned.
\<close>

definition mfcc_cepstra :: "options \<Rightarrow> real list list \<Rightarrow> error + real list list" where
  "mfcc_cepstra kw feature =
     (let num_mel_bins = kw_num_mel_bins kw;
          htk_compat = kw_htk_compat kw;
          signal_log_energy =
            (if kw_use_energy kw then
               map (\<lambda>row. row ! nat (if htk_compat then num_mel_bins else 0)) feature
             else []);
          mel_offset = (if htk_compat then 0 else 1 :: int);
          feature =
            (if kw_use_energy kw then
               map (\<lambda>row. slice_to (slice_from row mel_offset) num_mel_bins) feature
             else feature)
      in err_bind (get_dct_matrix (kw_num_ceps kw) num_mel_bins) (\<lambda>dct_matrix.
         err_bind (torch_mm feature dct_matrix) (\<lambda>feature.
         err_bind (if kw_cepstral_lifter kw \<noteq> 0 then
                     err_bind (get_lifter_coeffs (kw_num_ceps kw) (kw_cepstral_lifter kw))
                       (\<lambda>lifter_coeffs. Inr (map (\<lambda>row. map2 (*) row lifter_coeffs) feature))
                   else Inr feature) (\<lambda>feature.
         if kw_use_energy kw then
           (if \<exists>row \<in> set feature. row = [] then Inl IndexError
            else Inr (set_column0 feature signal_log_energy))
         else Inr feature))))"

definition mfcc :: "(nat \<Rightarrow> nat \<Rightarrow> real) \<Rightarrow> options \<Rightarrow> waveform2d \<Rightarrow> error + tensor" where
  "mfcc rand kw waveform =
     (if \<not> kw_num_ceps kw \<le> kw_num_mel_bins kw then
        Inl (AssertionError ''num_ceps cannot be larger than num_mel_bins: %d vs %d'')
      else
        err_bind (fbank rand (kw\<lparr>kw_subtract_mean := False, kw_use_log_fbank := True,
                                  kw_use_power := True\<rparr>) waveform) (\<lambda>feature.
        case feature of
          Empty1D \<Rightarrow>
            (if kw_use_energy kw then Inl IndexError
             else err_bind (get_dct_matrix (kw_num_ceps kw) (kw_num_mel_bins kw))
                    (\<lambda>dct_matrix. Inl RuntimeError))
        | Matrix feature \<Rightarrow>
            err_bind (mfcc_cepstra kw feature) (\<lambda>feature.
            if kw_htk_compat kw then
              (if \<exists>row \<in> set feature. row = [] then Inl IndexError
               else
                 let energy = map (\<lambda>row. row ! 0) feature;
                     feature = map (\<lambda>row. slice_from row 1) feature;
                     energy = (if \<not> kw_use_energy kw then map (\<lambda>e. e * sqrt 2) energy else energy);
                     feature = map2 (\<lambda>row e. row @ [e]) feature energy;
                     feature = subtract_column_mean feature (kw_subtract_mean kw)
                 in Inr (Matrix feature))
            else Inr (Matrix (subtract_column_mean feature (kw_subtract_mean kw))))))"

subsection \<open>Resampler\<close>

text \<open>
  The kernel bank has one row of taps per output phase. \<open>math.ceil\<close> gives an integer;
  float division by zero raises \<open>ZeroDivisionError\<close>.
\<close>

definition get_sinc_resample_kernel :: "int \<Rightarrow> int \<Rightarrow> int \<Rightarrow> error + (real list list \<times> int)" where
  "get_sinc_resample_kernel orig_freq new_freq lowpass_filter_width =
     (if \<not> lowpass_filter_width > 0 then Inl (AssertionError [])
      else
        let base_freq = real_of_int (min orig_freq new_freq);
            base_freq = base_freq * (99 / 100)
        in if base_freq = 0 then Inl ZeroDivisionError
           else
             let width = \<lceil>real_of_int (lowpass_filter_width * orig_freq) / base_freq\<rceil>;
                 idx = map real_of_int [- width..width + orig_freq - 1];
                 kernels =
                   map (\<lambda>i.
                     let t = map (\<lambda>x. (- real_of_int i / real_of_int new_freq
                                        + x / real_of_int orig_freq) * base_freq) idx;
                         t = map (\<lambda>v. min (max v (- real_of_int lowpass_filter_width))
                                           (real_of_int lowpass_filter_width)) t;
                         t = map (\<lambda>v. v * pi) t;
                         window = map (\<lambda>v. (cos (v / real_of_int lowpass_filter_width / 2)) ^ 2) t;
                         kern = map (\<lambda>v. if v = 0 then 1 else sin v / v) t;
                         kern = map2 (*) kern window
                     in kern) [0..new_freq - 1]
             in if orig_freq = 0 then Inl ZeroDivisionError
                else
                  let scale = base_freq / real_of_int orig_freq
                  in Inr (map (map (\<lambda>v. v * scale)) kernels, width))"

text \<open>
  \<open>F.conv1d(x[:, None], kernel, stride)\<close> on one row: stream \<open>i\<close> is the correlation of
  the row with kernel \<open>i\<close> at the positions \<open>0, stride, 2 * stride, \<dots>\<close>; the row is never
  shorter than the kernel here.
\<close>

definition conv1d :: "real list \<Rightarrow> real list list \<Rightarrow> nat \<Rightarrow> real list list" where
  "conv1d x kern stride =
     map (\<lambda>k. map (\<lambda>j. \<Sum>t < length k. x ! (j * stride + t) * k ! t)
                  [0..<(length x - length k) div stride + 1])
         kern"

text \<open>
  \<open>reshape(num_wavs, -1)\<close> cannot infer the second dimension of a tensor without
  elements when \<open>num_wavs = 0\<close>.
\<close>

definition resample_waveform :: "real list list \<Rightarrow> real \<Rightarrow> real \<Rightarrow> int \<Rightarrow> error + real list list" where
  "resample_waveform waveform orig_freq new_freq lowpass_filter_width =
     (if \<not> (orig_freq > 0 \<and> new_freq > 0) then Inl (AssertionError [])
      else
        let orig_freq = py_int orig_freq;
            new_freq = py_int new_freq;
            gcd' = gcd orig_freq new_freq
        in if gcd' = 0 then Inl ZeroDivisionError
           else
             let orig_freq = orig_freq div gcd';
                 new_freq = new_freq div gcd'
             in err_bind (get_sinc_resample_kernel orig_freq new_freq lowpass_filter_width)
                  (\<lambda>(kern, width).
                let num_wavs = length waveform;
                    length' = ncols waveform;
                    waveform = map (\<lambda>row. replicate (nat width) 0 @ row
                                            @ replicate (nat (width + orig_freq)) 0) waveform;
                    resampled = map (\<lambda>row. conv1d row kern (nat orig_freq)) waveform
                in if num_wavs = 0 then Inl RuntimeError
                   else
                     let resampled = map (\<lambda>streams. concat (matT streams)) resampled;
                         target_length =
                           py_int (real_of_int \<lceil>real_of_int (new_freq * int length')
                                                  / real_of_int orig_freq\<rceil>)
                     in Inr (map (\<lambda>row. slice_to row target_length) resampled)))"

subsection \<open>Sample inputs\<close>

text \<open>A random source that always draws one half, and a configuration with short windows
  (two samples per frame, one sample of shift, at 1000 Hz).\<close>

definition rand_half :: "nat \<Rightarrow> nat \<Rightarrow> real" where
  "rand_half i j = 1 / 2"

definition short_kw :: options where
  "short_kw = defaults\<lparr>kw_sample_frequency := 1000, kw_frame_length := 2, kw_frame_shift := 1\<rparr>"

subsection \<open>Auxiliary predicates\<close>

text \<open>All entries of a matrix are non-negative; all entries that a mask selects are
  non-negative.\<close>

definition nonneg2 :: "real list list \<Rightarrow> bool" where
  "nonneg2 M = (\<forall>row \<in> set M. \<forall>w \<in> set row. 0 \<le> w)"

definition mask_nonneg2 :: "bool list list \<Rightarrow> real list list \<Rightarrow> bool" where
  "mask_nonneg2 msk vals =
     (\<forall>i < min (length msk) (length vals). \<forall>j < min (length (msk ! i)) (length (vals ! i)).
        msk ! i ! j \<longrightarrow> 0 \<le> vals ! i ! j)"

text \<open>A filterbank configuration with short windows: four mel bins, eight samples per
  frame and four samples of shift at 16 kHz.\<close>

definition bank_kw :: options where
  "bank_kw = defaults\<lparr>kw_num_mel_bins := 4, kw_frame_length := 1 / 2, kw_frame_shift := 1 / 4\<rparr>"

text \<open>A cepstral configuration without liftering: four mel bins, two cepstra.\<close>

definition c0_kw :: options where
  "c0_kw = defaults\<lparr>kw_cepstral_lifter := 0, kw_num_mel_bins := 4, kw_num_ceps := 2\<rparr>"

subsection \<open>The warp function as the specification words it\<close>

text \<open>
  \<open>F(f) = f / warp\<close> between the inflection points \<open>l\<close> and \<open>h\<close>, the line from
  \<open>(low_freq, low_freq)\<close> to \<open>(l, F(l))\<close> below \<open>l\<close>, the line from \<open>(h, F(h))\<close> to
  \<open>(high_freq, high_freq)\<close> from \<open>h\<close> on, and the identity outside
  \<open>[low_freq, high_freq]\<close>; where regions overlap, outside wins over below-\<open>l\<close>, which wins
  over below-\<open>h\<close> (the order in which the code overwrites).
\<close>

definition vtln_F :: "real \<Rightarrow> real \<Rightarrow> real \<Rightarrow> real \<Rightarrow> real \<Rightarrow> real \<Rightarrow> real" where
  "vtln_F vtln_low_cutoff vtln_high_cutoff low_freq high_freq warp f =
     (let l = vtln_low_cutoff * max 1 warp;
          h = vtln_high_cutoff * min 1 warp
      in if f < low_freq \<or> f > high_freq then f
         else if f < l then low_freq + (l / warp - low_freq) / (l - low_freq) * (f - low_freq)
         else if f < h then f / warp
         else high_freq + (high_freq - h / warp) / (high_freq - h) * (f - high_freq))"

subsection \<open>The kernel of the Resampler at equal rates\<close>

text \<open>
  With \<open>orig_freq = new_freq\<close> the reduced frequencies are both 1, and the only phase has the
  half-width \<open>ceil (lowpass_filter_width / 0.99)\<close> and, at the offset \<open>d\<close> from the centre,
  the tap \<open>0.99 * sinc t * cos\<^sup>2 (t / (2 * lowpass_filter_width))\<close> with
  \<open>t = pi * clamp (0.99 * d)\<close>.
\<close>

definition identity_width :: "int \<Rightarrow> nat" where
  "identity_width lowpass_filter_width = nat \<lceil>real_of_int lowpass_filter_width / (99 / 100)\<rceil>"

definition identity_tap :: "int \<Rightarrow> int \<Rightarrow> real" where
  "identity_tap lowpass_filter_width d =
     (let t = min (max (real_of_int d * (99 / 100)) (- real_of_int lowpass_filter_width))
                  (real_of_int lowpass_filter_width) * pi
      in (if t = 0 then 1 else sin t / t) * (cos (t / real_of_int lowpass_filter_width / 2)) ^ 2
         * (99 / 100))"

subsection \<open>The filterbank without the Nyquist bin\<close>

text \<open>
  \<open>fbank\<close> as it would be if the highest (Nyquist) FFT bin were not there: the last column
  of the spectrum is left out, and the mel bank is used as \<open>get_mel_banks\<close> returns it,
  without the zero column. Everything else is as in \<open>fbank\<close>.
\<close>

definition fbank_low_bins :: "(nat \<Rightarrow> nat \<Rightarrow> real) \<Rightarrow> options \<Rightarrow> waveform2d \<Rightarrow> error + tensor" where
  "fbank_low_bins rand kw waveform =
     err_bind (get_waveform_and_window_properties waveform (kw_channel kw)
                 (kw_sample_frequency kw) (kw_frame_shift kw) (kw_frame_length kw)
                 (kw_round_to_power_of_two kw) (kw_preemphasis_coefficient kw))
       (\<lambda>(waveform, window_shift, window_size, padded_window_size).
     if real (length (v_elems waveform)) < kw_min_duration kw * kw_sample_frequency kw then Inr Empty1D
     else
       err_bind (get_window rand waveform padded_window_size window_size window_shift
                   (kw_window_type kw) (kw_blackman_coeff kw) (kw_snip_edges kw)
                   (kw_raw_energy kw) (kw_energy_floor kw) (kw_dither kw)
                   (kw_remove_dc_offset kw) (kw_preemphasis_coefficient kw))
         (\<lambda>(strided_input, signal_log_energy).
       let spectrum = map (\<lambda>row. map cmod (rfft row)) strided_input;
           spectrum = (if kw_use_power kw then map (map (\<lambda>x. x ^ 2)) spectrum else spectrum);
           low_bins = map butlast spectrum
       in err_bind (get_mel_banks (kw_num_mel_bins kw) padded_window_size (kw_sample_frequency kw)
                      (kw_low_freq kw) (kw_high_freq kw) (kw_vtln_low kw) (kw_vtln_high kw)
                      (kw_vtln_warp kw))
            (\<lambda>(mel_energies, center_freqs).
          err_bind (torch_mm low_bins (matT mel_energies)) (\<lambda>mel_energies.
             let mel_energies =
                   (if kw_use_log_fbank kw then map (map (\<lambda>x. ln (max x get_epsilon))) mel_energies
                    else mel_energies);
                 mel_energies =
                   (if kw_use_energy kw then
                      (if kw_htk_compat kw then
                         map2 (\<lambda>row e. row @ [e]) mel_energies signal_log_energy
                       else map2 (\<lambda>row e. e # row) mel_energies signal_log_energy)
                    else mel_energies);
                 mel_energies = subtract_column_mean mel_energies (kw_subtract_mean kw)
             in Inr (Matrix mel_energies)))))"

section \<open>Properties\<close>

subsection \<open>Framer\<close>

lemma view_cell_elem:
  assumes "view_ok t" "p < length (v_elems t)"
  shows "view_cell t (p * v_stride t) = Some (v_elems t ! p)"
proof (cases "v_stride t = 0")
  case True
  have "v_elems t ! p \<in> set (v_elems t)" using assms(2) by simp
  then have "v_elems t ! p = v_elems t ! 0" using assms(1) True by (simp add: view_ok_def)
  moreover have "v_elems t \<noteq> []" using assms(2) by auto
  ultimately show ?thesis using True by (simp add: view_cell_def)
next
  case False
  then show ?thesis using assms(2) by (simp add: view_cell_def)
qed

lemma view_cell_contiguous:
  "view_cell (contiguous xs) p = (if p < length xs then Some (xs ! p) else None)"
  by (simp add: view_cell_def contiguous_def)

lemma as_strided_frames:
  assumes "0 \<le> m" "0 \<le> k" "0 < s" "view_ok t"
    and "m = 0 \<or> k = 0 \<or> (m - 1) * s + k \<le> int (length (v_elems t))"
  shows "as_strided t (m, k) (s * int (v_stride t), int (v_stride t))
           = Inr (frames_of (v_elems t) (nat m) (nat k) (nat s))"
proof -
  let ?xs = "v_elems t" and ?st = "v_stride t"
  let ?cells = "map (\<lambda>i. map (\<lambda>j. view_cell t (nat (int i * (s * int ?st) + int j * int ?st)))
                              [0..<nat k]) [0..<nat m]"
  have cell: "view_cell t (nat (int i * (s * int ?st) + int j * int ?st)) = Some (?xs ! (i * nat s + j))"
    and inb: "i * nat s + nat k \<le> length ?xs"
    if "i < nat m" "j < nat k" for i j
  proof -
    from that assms(5) have bound: "(m - 1) * s + k \<le> int (length ?xs)" by auto
    have "int i \<le> m - 1" using that by linarith
    then have "int i * s \<le> (m - 1) * s" using assms(3) by (simp add: mult_right_mono)
    then have le: "int i * s + k \<le> int (length ?xs)" using bound by linarith
    have eq: "int (i * nat s) = int i * s" using assms(3) by simp
    show "i * nat s + nat k \<le> length ?xs" using le eq that by linarith
    then have lt: "i * nat s + j < length ?xs" using that by linarith
    have "int ((i * nat s + j) * ?st) = (int (i * nat s) + int j) * int ?st" by simp
    also have "\<dots> = (int i * s + int j) * int ?st" by (simp only: eq)
    also have "\<dots> = int i * (s * int ?st) + int j * int ?st" by (simp add: algebra_simps)
    finally have "int i * (s * int ?st) + int j * int ?st = int ((i * nat s + j) * ?st)" by simp
    then have "nat (int i * (s * int ?st) + int j * int ?st) = (i * nat s + j) * ?st"
      by (simp only: nat_int)
    then show "view_cell t (nat (int i * (s * int ?st) + int j * int ?st)) = Some (?xs ! (i * nat s + j))"
      using view_cell_elem[OF assms(4) lt] by simp
  qed
  have none: "\<not> (\<exists>row \<in> set ?cells. None \<in> set row)"
    using cell by (auto simp: image_iff)
  have row: "map the (map (\<lambda>j. view_cell t (nat (int i * (s * int ?st) + int j * int ?st))) [0..<nat k])
             = take (nat k) (drop (i * nat s) ?xs)" if "i < nat m" for i
  proof (cases "nat k = 0")
    case True
    then show ?thesis by simp
  next
    case False
    then have "0 < nat k" by simp
    from inb[OF that this] show ?thesis
      using cell[OF that] by (intro nth_equalityI) simp_all
  qed
  have "map (map the) ?cells = frames_of ?xs (nat m) (nat k) (nat s)"
    using row by (simp add: frames_of_def)
  moreover have "\<not> s * int ?st < 0" using assms(3) by (simp add: mult_less_0_iff)
  ultimately show ?thesis
    using none assms(1-3) unfolding as_strided_def Let_def by (simp only: prod.case) simp
qed


lemma as_strided_contiguous:
  assumes "0 \<le> m" "0 \<le> k" "0 < s"
    and "m = 0 \<or> k = 0 \<or> (m - 1) * s + k \<le> int (length xs)"
  shows "as_strided (contiguous xs) (m, k) (s * 1, 1) = Inr (frames_of xs (nat m) (nat k) (nat s))"
proof -
  have "view_ok (contiguous xs)" by (simp add: view_ok_def contiguous_def)
  from as_strided_frames[OF assms(1-3) this] assms(4) show ?thesis
    by (simp add: contiguous_def)
qed

lemma last_n_rev: "last_n k (rev w) = rev (take k w)"
  by (simp add: last_n_def rev_take)

lemma slice_from_neg: "0 < p \<Longrightarrow> slice_from xs (- p) = last_n (nat p) xs"
  by (auto simp: slice_from_def last_n_def max_def nat_diff_distrib' intro!: arg_cong2[where f=drop])

lemma slice_from_nonneg: "0 \<le> k \<Longrightarrow> slice_from xs k = drop (nat k) xs"
  by (simp add: slice_from_def)

lemma div_mult_le_int: "(a div b) * b \<le> a" if "0 < (b::int)"
proof -
  have "a div b * b + a mod b = a" by simp
  moreover have "0 \<le> a mod b" using that by simp
  ultimately show ?thesis by linarith
qed

text \<open>
  C4. With \<open>snip_edges = true\<close> a waveform of \<open>n\<close> samples gives the empty result when
  \<open>n < window_size\<close> and otherwise exactly \<open>1 + (n - window_size) div window_shift\<close>
  frames; frame \<open>i\<close> is the \<open>window_size\<close> consecutive samples that start at sample
  \<open>i * window_shift\<close>, and every frame lies inside the signal (no padding). This holds
  for every view, whatever its stride in storage: the strides are those of the tensor
  they are applied to.
\<close>

theorem get_strided_snip_edges:
  assumes "0 \<le> ws" "0 < sh" "view_ok w"
  shows "get_strided w ws sh True =
          (if int (length (v_elems w)) < ws then Inr []
           else Inr (frames_of (v_elems w)
                       (nat (snip_frame_count (int (length (v_elems w))) ws sh)) (nat ws) (nat sh)))
        \<and> (ws \<le> int (length (v_elems w)) \<longrightarrow>
             (\<forall>i < nat (snip_frame_count (int (length (v_elems w))) ws sh).
                i * nat sh + nat ws \<le> length (v_elems w)))"
proof -
  let ?n = "int (length (v_elems w))"
  let ?m = "snip_frame_count ?n ws sh"
  have inb: "(?m - 1) * sh + ws \<le> ?n" if "ws \<le> ?n"
    using div_mult_le_int[OF assms(2), of "?n - ws"] by (simp add: snip_frame_count_def)
  have mpos: "0 \<le> ?m" if "ws \<le> ?n"
    using that assms(2) by (simp add: snip_frame_count_def pos_imp_zdiv_nonneg_iff)
  have A: "get_strided w ws sh True = Inr (frames_of (v_elems w) (nat ?m) (nat ws) (nat sh))"
    if "ws \<le> ?n"
    using as_strided_frames[OF mpos[OF that] assms(1) assms(2) assms(3)] inb[OF that] that assms(2)
    by (simp add: get_strided_def snip_frame_count_def Let_def)
  have B: "i * nat sh + nat ws \<le> length (v_elems w)" if "ws \<le> ?n" "i < nat ?m" for i
  proof -
    have "int i \<le> ?m - 1" using that by linarith
    then have "int i * sh \<le> (?m - 1) * sh" using assms(2) by (simp add: mult_right_mono)
    then have "int i * sh + ws \<le> ?n" using inb[OF that(1)] by linarith
    moreover have "int (i * nat sh) = int i * sh" using assms(2) by simp
    ultimately show ?thesis using assms(1) by linarith
  qed
  show ?thesis
    using A B by (auto simp: get_strided_def)
qed

theorem get_strided_snip_edges_witness:
  "get_strided (contiguous [1, 2, 3, 4, 5]) 2 2 True = Inr [[1, 2], [3, 4]]
   \<and> get_strided \<lparr>v_elems = [1, 2, 3, 4, 5], v_stride = 3\<rparr> 2 2 True = Inr [[1, 2], [3, 4]]
   \<and> get_strided (contiguous [1]) 2 2 True = Inr []"
  using get_strided_snip_edges [of 2 2 "contiguous [1, 2, 3, 4, 5]"]
    get_strided_snip_edges [of 2 2 "\<lparr>v_elems = [1, 2, 3, 4, 5], v_stride = 3\<rparr>"]
    get_strided_snip_edges [of 2 2 "contiguous [1]"]
  by (simp add: frames_of_def snip_frame_count_def upt_conv_Cons contiguous_def view_ok_def)

text \<open>
  With \<open>snip_edges = false\<close> the strides taken from the incoming waveform are applied to
  the concatenation, a fresh tensor of stride 1. For a waveform of stride 1 the result is
  what the specification describes: \<open>(n + window_shift div 2) div window_shift\<close> frames,
  taken by striding over the extended signal; with
  \<open>pad = window_size div 2 - window_shift div 2\<close>, the last \<open>pad\<close> samples of the reversed
  signal are put in front and the whole reversed signal behind when \<open>pad > 0\<close>; otherwise
  \<open>- pad\<close> samples are dropped from the front before the reversed signal is appended.
  Every frame lies inside the extended signal. The window is no longer than the signal,
  as the callers assert before framing.
\<close>

lemma get_strided_reflect_padded:
  "(if 0 < pad then (let pad_left = slice_from (rev w) (- pad) in contiguous (pad_left @ w @ rev w))
    else contiguous (slice_from w (- pad) @ rev w)) = contiguous (reflect_extend w pad)"
proof (cases "0 < pad")
  case True
  from slice_from_neg[OF True, of "rev w"] True show ?thesis
    by (simp add: reflect_extend_def)
next
  case False
  then have "0 \<le> - pad" by simp
  from slice_from_nonneg[OF this, of w] False show ?thesis
    by (simp add: reflect_extend_def)
qed

lemma get_strided_reflect_any_stride:
  assumes "sh \<noteq> 0"
  shows "get_strided w ws sh False =
           as_strided (contiguous (reflect_extend (v_elems w) (ws div 2 - sh div 2)))
             (reflect_frame_count (int (length (v_elems w))) sh, ws)
             (sh * int (v_stride w), int (v_stride w))"
  using assms get_strided_reflect_padded[of "ws div 2 - sh div 2" "v_elems w"]
  by (simp add: get_strided_def Let_def reflect_frame_count_def)

lemma get_strided_reflect_contiguous:
  assumes "0 \<le> ws" "0 < sh" "ws \<le> int (length w)"
  shows "get_strided (contiguous w) ws sh False =
          Inr (frames_of (reflect_extend w (ws div 2 - sh div 2))
                 (nat (reflect_frame_count (int (length w)) sh)) (nat ws) (nat sh))
        \<and> (\<forall>i < nat (reflect_frame_count (int (length w)) sh).
              i * nat sh + nat ws \<le> length (reflect_extend w (ws div 2 - sh div 2)))"
proof -
  let ?n = "int (length w)"
  let ?m = "reflect_frame_count ?n sh"
  let ?pad = "ws div 2 - sh div 2"
  let ?ext = "reflect_extend w ?pad"
  have msh: "?m * sh \<le> ?n + sh div 2"
    using div_mult_le_int[OF assms(2)] by (simp add: reflect_frame_count_def)
  have mpos: "0 \<le> ?m"
    using assms(2) by (simp add: reflect_frame_count_def pos_imp_zdiv_nonneg_iff)
  have len: "int (length ?ext) = (if 0 < ?pad then ?pad + 2 * ?n else max 0 (?n + ?pad) + ?n)"
  proof (cases "0 < ?pad")
    case True
    have "nat ?pad \<le> length w" using assms by linarith
    then have "int (length w - (length w - nat ?pad)) = ?pad" using True by linarith
    then show ?thesis using True by (simp add: reflect_extend_def last_n_def)
  next
    case False
    have "int (length w - nat (- ?pad)) = max 0 (?n + ?pad)"
      using False by linarith
    then show ?thesis using False by (simp add: reflect_extend_def)
  qed
  have inb: "(?m - 1) * sh + ws \<le> int (length ?ext)" if "0 < ?m"
  proof -
    define M where "M = ?m * sh"
    have "1 * sh \<le> ?m * sh" using that assms(2) by (intro mult_right_mono) auto
    then have 1: "sh \<le> M" by (simp add: M_def)
    have 2: "(?m - 1) * sh = M - sh" by (simp add: algebra_simps M_def)
    have 3: "M \<le> ?n + sh div 2" using msh by (simp add: M_def)
    have "M - sh + ws \<le> int (length ?ext)"
      unfolding len using 1 3 assms by (simp split: if_splits add: max_def) linarith
    then show ?thesis using 2 by simp
  qed
  have A: "get_strided (contiguous w) ws sh False = Inr (frames_of ?ext (nat ?m) (nat ws) (nat sh))"
  proof -
    have "m = 0 \<or> ws = 0 \<or> (m - 1) * sh + ws \<le> int (length ?ext)" if "m = ?m" for m
      using inb mpos that by force
    from as_strided_contiguous[OF mpos assms(1) assms(2) this[OF refl]]
    show ?thesis
      using assms(2) get_strided_reflect_any_stride[of sh "contiguous w" ws]
      by (simp add: contiguous_def)
  qed
  have B: "i * nat sh + nat ws \<le> length ?ext" if "i < nat ?m" for i
  proof -
    have "0 < ?m" using that by linarith
    have "int i \<le> ?m - 1" using that by linarith
    then have "int i * sh \<le> (?m - 1) * sh" using assms(2) by (simp add: mult_right_mono)
    then have "int i * sh + ws \<le> int (length ?ext)" using inb[OF \<open>0 < ?m\<close>] by linarith
    moreover have "int (i * nat sh) = int i * sh" using assms(2) by simp
    ultimately show ?thesis using assms(1) by linarith
  qed
  show ?thesis using A B by blast
qed

text \<open>
  C5 does not hold of the code for a waveform that is not contiguous. The channel
  \<open>x[:, 0]\<close> of a tensor \<open>x\<close> of 6 rows and 2 columns whose first column is
  \<open>0, 2, 4, 6, 8, 10\<close> is a view of stride 2. With \<open>window_size = 2\<close>, \<open>window_shift = 1\<close>
  the extended signal is \<open>0, 0, 2, 4, 6, 8, 10, 10, 8, 6, 4, 2, 0\<close> and the claim's six
  frames are its consecutive pairs. The code steps through the concatenation with the
  strides \<open>(2, 2)\<close> of the view it no longer reads, so it returns every second sample.
  With stride 3 the strides reach past the concatenation and the library raises. With
  \<open>snip_edges = true\<close> the same view is framed correctly.
\<close>

theorem get_strided_reflect_noncontiguous:
  "get_strided \<lparr>v_elems = [0, 2, 4, 6, 8, 10], v_stride = 2\<rparr> 2 1 False
     = Inr [[0, 2], [2, 6], [6, 10], [10, 8], [8, 4], [4, 0]]
   \<and> frames_of (reflect_extend [0, 2, 4, 6, 8, 10] (2 div 2 - 1 div 2))
        (nat (reflect_frame_count 6 1)) 2 1
     = [[0, 0], [0, 2], [2, 4], [4, 6], [6, 8], [8, 10]]
   \<and> get_strided \<lparr>v_elems = [0, 2, 4, 6, 8, 10], v_stride = 3\<rparr> 2 1 False = Inl RuntimeError
   \<and> get_strided \<lparr>v_elems = [0, 2, 4, 6, 8, 10], v_stride = 2\<rparr> 2 1 True
     = Inr [[0, 2], [2, 4], [4, 6], [6, 8], [8, 10]]"
  by (simp add: get_strided_def as_strided_def view_cell_def contiguous_def slice_from_def
      frames_of_def reflect_extend_def reflect_frame_count_def last_n_def Let_def upt_conv_Cons)

subsection \<open>WindowProcessor\<close>

text \<open>
  C9. The log-energy of a frame \<open>x\<close> is \<open>ln (max (\<Sum>i. x\<^sub>i\<^sup>2) epsilon)\<close>; it is floored again at
  \<open>ln energy_floor\<close> when \<open>energy_floor \<noteq> 0\<close> and left as it is when \<open>energy_floor = 0\<close>.
  The epsilon the WindowProcessor passes is the machine epsilon of single precision,
  \<open>2\<^sup>-\<^sup>2\<^sup>3\<close>. (A negative floor has no logarithm: \<open>math.log\<close> raises.)
\<close>

theorem get_log_energy_formula:
  assumes "0 \<le> energy_floor"
  shows "get_log_energy frames epsilon energy_floor =
           Inr (map (\<lambda>x. if energy_floor = 0 then ln (max (\<Sum>i < length x. (x ! i) ^ 2) epsilon)
                          else max (ln (max (\<Sum>i < length x. (x ! i) ^ 2) epsilon)) (ln energy_floor))
                    frames)
         \<and> get_epsilon = 1 / 2 ^ 23"
proof -
  have sq: "sum_list (map (\<lambda>v. v ^ 2) x) = (\<Sum>i < length x. (x ! i) ^ 2)" for x :: "real list"
    by (simp add: sum_list_sum_nth atLeast0LessThan)
  show ?thesis
    using assms by (auto simp: get_log_energy_def sq get_epsilon_def EPSILON_def Let_def)
qed

theorem get_log_energy_formula_witness:
  "get_log_energy [[3, 4], [0, 0]] get_epsilon 1 = Inr [ln 25, 0]
   \<and> get_log_energy [[3, 4]] get_epsilon 0 = Inr [ln 25]"
  using get_log_energy_formula [of 1 "[[3, 4], [0, 0]]" get_epsilon]
    get_log_energy_formula [of 0 "[[3, 4]]" get_epsilon]
  by (simp add: get_epsilon_def EPSILON_def lessThan_Suc)

subsection \<open>Validation, short input and channel selection\<close>

lemma err_bind_simps [simp]:
  "err_bind (Inl e) f = Inl e"
  "err_bind (Inr x) f = f x"
  by (simp_all add: err_bind_def)

lemma py_int_of_int [simp]: "py_int (of_int k) = k"
  by (simp add: py_int_def)

lemma py_int_numeral [simp]: "py_int (numeral k) = numeral k"
  by (simp add: py_int_def)

lemma py_int_one [simp]: "py_int 1 = 1"
  by (simp add: py_int_def)

lemma bit_length_nat_numeral [simp]:
  "bit_length_nat 0 = 0"
  "bit_length_nat (Suc 0) = Suc 0"
  "bit_length_nat (numeral k) = Suc (bit_length_nat (numeral k div 2))"
  by (simp_all add: bit_length_nat.simps)

lemma validation_channel_default:
  "get_waveform_and_window_properties (w\<lparr>w_rows := x # xs\<rparr>) (- 1) sf fs fl r2 pc
     = get_waveform_and_window_properties (w\<lparr>w_rows := [x]\<rparr>) (- 1) sf fs fl r2 pc"
  "get_waveform_and_window_properties (w\<lparr>w_rows := []\<rparr>) c sf fs fl r2 pc
     = Inl (AssertionError ''Invalid channel {} for size {}'')"
  by (simp_all add: get_waveform_and_window_properties_def)

lemma short_kw_validation:
  "get_waveform_and_window_properties (contiguous2 [[1, 2]]) (- 1) 1000 1 2 True (97 / 100)
     = Inr (contiguous [1, 2], 1, 2, 2)"
  by (simp add: get_waveform_and_window_properties_def MILLISECONDS_TO_SECONDS_def
      next_power_of_2_def bit_length_def Let_def contiguous_def contiguous2_def)

lemma short_kw_strided: "get_strided (contiguous [1, 2]) 2 1 True = Inr [[1, 2]]"
  by (simp add: get_strided_def as_strided_def view_cell_def contiguous_def Let_def upt_conv_Cons)

lemma povey_ne: "POVEY \<noteq> HANNING" "POVEY \<noteq> HAMMING"
  by (simp_all add: POVEY_def HANNING_def HAMMING_def)

lemma window_ok: "0 \<le> ws \<Longrightarrow> \<exists>win. feature_window_function POVEY ws bc = Inr win"
  unfolding feature_window_function_def using povey_ne by simp

lemma if_InlE:
  assumes "(if c then Inl e else r) = Inr x"
  obtains "\<not> c" "r = Inr x"
  using assms by (cases c) auto

lemma err_bind_InrE:
  assumes "err_bind r f = Inr y"
  obtains x where "r = Inr x" "f x = Inr y"
  using assms by (cases r) (auto simp: err_bind_def)

lemma bit_length_nat_bound: "n < 2 ^ bit_length_nat n"
proof (induction n rule: bit_length_nat.induct)
  case (1 n)
  show ?case
  proof (cases "n = 0")
    case True
    then show ?thesis by (simp add: bit_length_nat.simps)
  next
    case False
    with 1 have "n div 2 < 2 ^ bit_length_nat (n div 2)" by simp
    then have "n < 2 * 2 ^ bit_length_nat (n div 2)" by linarith
    then show ?thesis using False by (subst bit_length_nat.simps) simp
  qed
qed

lemma next_power_of_2_ge: "x \<le> next_power_of_2 x"
proof (cases "x \<le> 0")
  case True
  have "x \<le> 2 ^ bit_length (x - 1)" by (rule order_trans[OF True]) simp
  then show ?thesis by (simp add: next_power_of_2_def)
next
  case False
  then have "nat \<bar>x - 1\<bar> = nat (x - 1)" by simp
  moreover have "nat (x - 1) < 2 ^ bit_length_nat (nat (x - 1))" by (rule bit_length_nat_bound)
  ultimately have "x - 1 < 2 ^ bit_length (x - 1)"
    using False unfolding bit_length_def
    by (metis nat_less_iff of_nat_numeral of_nat_power zle_diff1_eq not_le zero_le_numeral zero_le_power int_nat_eq abs_ge_zero)
  then show ?thesis using False by (simp add: next_power_of_2_def)
qed

text \<open>What the validation establishes for the values it returns.\<close>

lemma validation_window:
  assumes "get_waveform_and_window_properties waveform ch sf fs fl r2 pc = Inr (wave, sh, ws, pws)"
  shows "2 \<le> ws" "ws \<le> int (length (v_elems wave))" "0 < sh" "ws \<le> pws" "pws mod 2 = 0"
    and "wave = \<lparr>v_elems = w_rows waveform ! nat (max ch 0), v_stride = w_stride waveform\<rparr>"
  using assms next_power_of_2_ge[of ws]
  by (auto simp: get_waveform_and_window_properties_def Let_def split: if_splits)

lemma as_strided_rows:
  assumes "as_strided st (m, k) strides = Inr S"
  shows "length S = nat m" "\<forall>row \<in> set S. length row = nat k"
  using assms by (auto simp: as_strided_def Let_def split: if_splits prod.splits)

lemma get_strided_rows:
  assumes "get_strided w ws sh se = Inr S" "0 < ws"
  shows "\<forall>row \<in> set S. length row = nat ws"
  using assms as_strided_rows(2)[where k = ws]
  by (auto simp: get_strided_def Let_def split: if_splits)

lemma window_length:
  assumes "feature_window_function wt ws bc = Inr win"
  shows "length win = nat ws" "0 \<le> ws"
  using assms
  by (auto simp: feature_window_function_def hann_window_def hamming_window_def arange_def Let_def
      split: if_splits)

lemma rows_map2_rows:
  assumes "\<forall>row \<in> set S. length row = k" "\<forall>row \<in> set G. length row = k"
  shows "\<forall>row \<in> set (map2 (map2 g) S G). length row = k"
  using assms by (auto simp: in_set_zip)

lemma rows_map2_scalar:
  assumes "\<forall>row \<in> set S. length row = k"
  shows "\<forall>row \<in> set (map2 (\<lambda>row y. map (g y) row) S Y). length row = k"
  using assms by (auto simp: in_set_zip)

lemma rand_like_rows:
  assumes "\<forall>row \<in> set S. length row = k"
  shows "\<forall>row \<in> set (rand_like rand S). length row = k"
  using assms by (auto simp: rand_like_def)

lemma length_rand_like: "length (rand_like rand S) = length S"
  by (simp add: rand_like_def)

text \<open>
  The frames \<open>get_window\<close> returns are as many as the Framer's and have
  \<open>padded_window_size\<close> samples each; with the Povey window and a floor that has a
  logarithm it returns whenever the Framer does and there is a frame to pre-emphasise.
\<close>

lemma get_window_result:
  assumes s0: "get_strided w ws sh se = Inr S0" and ws: "0 < ws" "ws \<le> pws"
  shows "get_window rand w pws ws sh wt bc se re fl di dc pc = Inr (S, E)
           \<Longrightarrow> length S = length S0 \<and> (\<forall>row \<in> set S. length row = nat pws)"
    and "0 \<le> fl \<Longrightarrow> (pc \<noteq> 0 \<longrightarrow> S0 \<noteq> [])
           \<Longrightarrow> \<exists>r. get_window rand w pws ws sh POVEY bc se re fl di dc pc = Inr r"
proof -
  define D where "D = (\<lambda>S :: real list list. if di \<noteq> 0 then
                  (let x = map (map (max get_epsilon)) (rand_like rand S);
                       rand_gauss = map (map (\<lambda>x. sqrt (- 2 * ln x) * cos (2 * pi * x))) x
                   in map2 (map2 (\<lambda>s g. s + g * di)) S rand_gauss)
                else S)"
  define DC where "DC = (\<lambda>S :: real list list. if dc then
                  map2 (\<lambda>row mean. map (\<lambda>s. s - mean) row) S (row_means S)
                else S)"
  define PR where "PR = (\<lambda>S :: real list list. if pc \<noteq> 0 then
                     (if S = [] \<or> [] \<in> set S then Inl RuntimeError
                      else Inr (map (\<lambda>row. map2 (\<lambda>s off. s - pc * off)
                                                 row (butlast (pad_replicate_left row))) S))
                   else Inr S)"
  define WM where "WM = (\<lambda>win (S :: real list list). map (\<lambda>row. map2 (*) row win) S)"
  define PD where "PD = (\<lambda>S :: real list list. if pws \<noteq> ws then
                        (let padding_right = pws - ws
                         in if 0 \<le> padding_right then
                              Inr (map (\<lambda>row. row @ replicate (nat padding_right) 0) S)
                            else if \<exists>row \<in> set S. int (length row) + padding_right \<le> 0
                            then Inl RuntimeError
                            else Inr (map (\<lambda>row. take (nat (int (length row) + padding_right)) row) S))
                      else Inr S)"
  have gw: "get_window rand w pws ws sh wt bc se re fl di dc pc =
     err_bind (get_strided w ws sh se) (\<lambda>S0.
       err_bind (if re then get_log_energy (DC (D S0)) get_epsilon fl else Inr []) (\<lambda>raw.
       err_bind (PR (DC (D S0))) (\<lambda>S1.
       err_bind (feature_window_function wt ws bc) (\<lambda>win.
       err_bind (PD (WM win S1)) (\<lambda>S2.
       err_bind (if \<not> re then get_log_energy S2 get_epsilon fl else Inr raw)
         (\<lambda>sle. Inr (S2, sle)))))))" for wt
    unfolding get_window_def D_def DC_def PR_def WM_def PD_def Let_def ..
  let ?k = "nat ws"
  have kpos: "0 < ?k" using ws(1) by simp
  have r0: "\<forall>row \<in> set S0. length row = ?k" by (rule get_strided_rows[OF s0 ws(1)])
  have r1: "\<forall>row \<in> set (D S0). length row = ?k"
  proof (cases "di = 0")
    case True
    then show ?thesis using r0 by (simp add: D_def)
  next
    case False
    let ?G = "map (map (\<lambda>x. sqrt (- 2 * ln x) * cos (2 * pi * x)))
                (map (map (max get_epsilon)) (rand_like rand S0))"
    have "\<forall>row \<in> set ?G. length row = ?k"
      using rand_like_rows[OF r0, of rand] by simp
    from rows_map2_rows[OF r0 this, of "\<lambda>s g. s + g * di"] False show ?thesis
      by (simp only: D_def Let_def if_True not_False_eq_True)
  qed
  have l1: "length (D S0) = length S0"
    unfolding D_def Let_def by (simp add: length_rand_like)
  have r2: "\<forall>row \<in> set (DC (D S0)). length row = ?k"
  proof (cases dc)
    case True
    from rows_map2_scalar[OF r1, of "\<lambda>mean s. s - mean" "row_means (D S0)"] True show ?thesis
      by (simp only: DC_def if_True)
  next
    case False
    then show ?thesis using r1 by (simp add: DC_def)
  qed
  have l2: "length (DC (D S0)) = length S0"
    unfolding DC_def using l1 by (simp add: row_means_def)
  have ne2: "[] \<notin> set (DC (D S0))" using r2 kpos by auto
  have pl: "length (pad_replicate_left row) = (if row = [] then 0 else Suc (length row))" for row
    by (cases row) (simp_all add: pad_replicate_left_def)
  have r3: "length S1 = length S0 \<and> (\<forall>row \<in> set S1. length row = ?k)"
    if "PR (DC (D S0)) = Inr S1" for S1
  proof (cases "pc = 0")
    case True
    then show ?thesis using that r2 l2 by (simp add: PR_def)
  next
    case False
    with that have "S1 = map (\<lambda>row. map2 (\<lambda>s off. s - pc * off) row (butlast (pad_replicate_left row)))
                           (DC (D S0))"
      by (simp add: PR_def split: if_splits)
    then show ?thesis using r2 l2 ne2 by (auto simp: pl)
  qed
  have r4: "length S2 = length S1 \<and> (\<forall>row \<in> set S2. length row = nat pws)"
    if "PD (WM win S1) = Inr S2" "length win = ?k" "\<forall>row \<in> set S1. length row = ?k" for win S1 S2
  proof -
    have wm: "length (WM win S1) = length S1" "\<forall>row \<in> set (WM win S1). length row = ?k"
      using that(2,3) by (auto simp: WM_def)
    show ?thesis
    proof (cases "pws = ws")
      case True
      then show ?thesis using that(1) wm by (simp add: PD_def)
    next
      case False
      have "nat ws + nat (pws - ws) = nat pws" using ws by simp
      moreover have "0 \<le> pws - ws" using ws(2) by simp
      then have "S2 = map (\<lambda>row. row @ replicate (nat (pws - ws)) 0) (WM win S1)"
        using that(1) False by (simp add: PD_def Let_def)
      ultimately show ?thesis using wm by auto
    qed
  qed
  show "length S = length S0 \<and> (\<forall>row \<in> set S. length row = nat pws)"
    if "get_window rand w pws ws sh wt bc se re fl di dc pc = Inr (S, E)"
  proof -
    from that[unfolded gw] s0 obtain S1 win where
      s1: "PR (DC (D S0)) = Inr S1" and win: "feature_window_function wt ws bc = Inr win"
      and S: "PD (WM win S1) = Inr S"
      by (auto elim!: err_bind_InrE)
    from r4[OF S window_length(1)[OF win]] r3[OF s1] show ?thesis by simp
  qed
  show "\<exists>r. get_window rand w pws ws sh POVEY bc se re fl di dc pc = Inr r"
    if fl: "0 \<le> fl" and ne: "pc \<noteq> 0 \<longrightarrow> S0 \<noteq> []"
  proof -
    from window_ok[of ws bc] ws(1) obtain win where
      win: "feature_window_function POVEY ws bc = Inr win" by auto
    have gle: "\<exists>e. get_log_energy X get_epsilon fl = Inr e" for X
      using fl by (simp add: get_log_energy_def Let_def)
    have "DC (D S0) \<noteq> []" if "pc \<noteq> 0" using ne that l2 by auto
    then have "\<exists>S1. PR (DC (D S0)) = Inr S1"
      using ne2 by (cases "pc = 0") (simp_all add: PR_def)
    then obtain S1 where s1: "PR (DC (D S0)) = Inr S1" ..
    have "0 \<le> pws - ws" using ws(2) by simp
    then have "\<exists>S2. PD (WM win S1) = Inr S2"
      by (cases "pws = ws") (simp_all add: PD_def Let_def)
    then obtain S2 where s2: "PD (WM win S1) = Inr S2" ..
    from gle[of "DC (D S0)"] obtain e1 where e1: "get_log_energy (DC (D S0)) get_epsilon fl = Inr e1" ..
    from gle[of S2] obtain e2 where e2: "get_log_energy S2 get_epsilon fl = Inr e2" ..
    show ?thesis
      unfolding gw using s0 s1 s2 win e1 e2 by (cases re) simp_all
  qed
qed

lemma get_window_ok:
  assumes "get_strided w ws sh se = Inr s" "0 \<le> fl" "0 < ws" "ws \<le> pws" "s \<noteq> []"
  shows "\<exists>r. get_window rand w pws ws sh POVEY bc se re fl di dc pc = Inr r"
  using get_window_result(2)[OF assms(1,3,4,2)] assms(5) by blast

lemma not_isl_err_bind_Inr:
  assumes "\<exists>r. g = Inr r" "\<And>x. \<not> isl (f x)"
  shows "\<not> isl (err_bind g f)"
  using assms by auto

lemma spectrogram_channel_default:
  assumes "kw_channel kw = - 1"
  shows "spectrogram rand kw (w\<lparr>w_rows := x # xs\<rparr>) = spectrogram rand kw (w\<lparr>w_rows := [x]\<rparr>)"
    and "spectrogram rand kw (w\<lparr>w_rows := []\<rparr>)
           = Inl (AssertionError ''Invalid channel {} for size {}'')"
  unfolding spectrogram_def assms
  by (simp_all only: validation_channel_default(1)[where w = w and x = x and xs = xs] validation_channel_default(2)
      err_bind_simps Let_def)

lemma fbank_channel_default:
  assumes "kw_channel kw = - 1"
  shows "fbank rand kw (w\<lparr>w_rows := x # xs\<rparr>) = fbank rand kw (w\<lparr>w_rows := [x]\<rparr>)"
    and "fbank rand kw (w\<lparr>w_rows := []\<rparr>) = Inl (AssertionError ''Invalid channel {} for size {}'')"
  unfolding fbank_def assms
  by (simp_all only: validation_channel_default(1)[where w = w and x = x and xs = xs] validation_channel_default(2)
      err_bind_simps)

lemma mfcc_channel_default:
  assumes "kw_channel kw = - 1"
  shows "mfcc rand kw (w\<lparr>w_rows := x # xs\<rparr>) = mfcc rand kw (w\<lparr>w_rows := [x]\<rparr>)"
    and "kw_num_ceps kw \<le> kw_num_mel_bins kw \<Longrightarrow>
           mfcc rand kw (w\<lparr>w_rows := []\<rparr>) = Inl (AssertionError ''Invalid channel {} for size {}'')"
proof -
  let ?kw = "kw\<lparr>kw_subtract_mean := False, kw_use_log_fbank := True, kw_use_power := True\<rparr>"
  have c: "kw_channel ?kw = - 1" using assms by simp
  from fbank_channel_default(1)[OF c]
  have "fbank rand ?kw (w\<lparr>w_rows := x # xs\<rparr>) = fbank rand ?kw (w\<lparr>w_rows := [x]\<rparr>)" .
  then show "mfcc rand kw (w\<lparr>w_rows := x # xs\<rparr>) = mfcc rand kw (w\<lparr>w_rows := [x]\<rparr>)"
    unfolding mfcc_def by (simp only:)
  show "mfcc rand kw (w\<lparr>w_rows := []\<rparr>) = Inl (AssertionError ''Invalid channel {} for size {}'')"
    if "kw_num_ceps kw \<le> kw_num_mel_bins kw"
    unfolding mfcc_def using that by (simp only: fbank_channel_default(2)[OF c] err_bind_simps) simp
qed

text \<open>
  C2, as stated, fails: a signal with fewer samples than one window is refused by the
  validation that \<open>spectrogram\<close> and \<open>fbank\<close> run first (defaults: 400 samples per window).
\<close>

theorem short_input_counterexample:
  "spectrogram rand_half defaults (contiguous2 [[0, 0, 0]])
     = Inl (AssertionError ''choose a window size {} that is [2, {}]'')
   \<and> fbank rand_half defaults (contiguous2 [[0, 0, 0]])
     = Inl (AssertionError ''choose a window size {} that is [2, {}]'')"
  by (simp add: spectrogram_def fbank_def get_waveform_and_window_properties_def defaults_def
      MILLISECONDS_TO_SECONDS_def Let_def contiguous2_def)

text \<open>
  C2, amended. When the validation passes and the selected channel has fewer than
  \<open>min_duration * sample_frequency\<close> samples, \<open>spectrogram\<close> and \<open>fbank\<close> return the explicit
  empty result. When the selected channel has fewer samples than one window, both raise
  the window-size assertion, whatever \<open>snip_edges\<close> is.
\<close>

theorem short_input:
  "(get_waveform_and_window_properties waveform (kw_channel kw) (kw_sample_frequency kw)
       (kw_frame_shift kw) (kw_frame_length kw) (kw_round_to_power_of_two kw)
       (kw_preemphasis_coefficient kw) = Inr (wave, window_shift, window_size, padded_window_size)
     \<and> real (length (v_elems wave)) < kw_min_duration kw * kw_sample_frequency kw
     \<longrightarrow> spectrogram rand kw waveform = Inr Empty1D \<and> fbank rand kw waveform = Inr Empty1D)
   \<and> (max (kw_channel kw) 0 < int (length (w_rows waveform))
       \<and> int (length (w_rows waveform ! nat (max (kw_channel kw) 0)))
           < py_int (kw_sample_frequency kw * kw_frame_length kw * MILLISECONDS_TO_SECONDS)
     \<longrightarrow> spectrogram rand kw waveform = Inl (AssertionError ''choose a window size {} that is [2, {}]'')
         \<and> fbank rand kw waveform = Inl (AssertionError ''choose a window size {} that is [2, {}]''))"
  by (auto simp: spectrogram_def fbank_def Let_def get_waveform_and_window_properties_def)

theorem short_input_witness:
  "spectrogram rand_half (short_kw\<lparr>kw_min_duration := 1\<rparr>) (contiguous2 [[1, 2, 3]]) = Inr Empty1D
   \<and> fbank rand_half (short_kw\<lparr>kw_min_duration := 1\<rparr>) (contiguous2 [[1, 2, 3]]) = Inr Empty1D
   \<and> spectrogram rand_half short_kw (contiguous2 [[1]])
       = Inl (AssertionError ''choose a window size {} that is [2, {}]'')
   \<and> fbank rand_half short_kw (contiguous2 [[1]])
       = Inl (AssertionError ''choose a window size {} that is [2, {}]'')"
  using short_input [of "contiguous2 [[1, 2, 3]]" "short_kw\<lparr>kw_min_duration := 1\<rparr>"
      "contiguous [1, 2, 3]" 1 2 2 rand_half]
    short_input [of "contiguous2 [[1]]" short_kw _ _ _ _ rand_half]
  by (simp add: get_waveform_and_window_properties_def short_kw_def defaults_def
      MILLISECONDS_TO_SECONDS_def next_power_of_2_def bit_length_def Let_def
      contiguous_def contiguous2_def)

text \<open>
  C3, as stated, fails: with two channels and \<open>channel = -1\<close> the call is not an error;
  it returns what it returns for the first channel alone.
\<close>

theorem channel_counterexample:
  "\<not> isl (spectrogram rand_half short_kw (contiguous2 [[1, 2], [3, 4]]))
   \<and> spectrogram rand_half short_kw (contiguous2 [[1, 2], [3, 4]])
       = spectrogram rand_half short_kw (contiguous2 [[1, 2]])"
proof -
  have "\<not> isl (spectrogram rand_half short_kw (contiguous2 [[1, 2]]))"
    apply (simp add: spectrogram_def short_kw_def defaults_def short_kw_validation Let_def)
    apply (rule not_isl_err_bind_Inr)
     apply (rule get_window_ok[OF short_kw_strided])
        apply simp_all
    apply (simp split: prod.splits)
    done
  moreover have "spectrogram rand_half short_kw (contiguous2 [[1, 2], [3, 4]])
                   = spectrogram rand_half short_kw (contiguous2 [[1, 2]])"
    using spectrogram_channel_default(1)[where kw = short_kw and rand = rand_half
        and w = "contiguous2 []" and x = "[1, 2]" and xs = "[[3, 4]]"]
    by (simp add: short_kw_def defaults_def contiguous2_def)
  ultimately show ?thesis by simp
qed

text \<open>
  C3, amended. With \<open>channel = -1\<close> the feature functions select the first channel, as with
  \<open>channel = 0\<close>: a waveform of one or more channels gives what its first channel alone
  gives, and only a waveform without channels is refused as an invalid channel (by \<open>mfcc\<close>
  once its own test \<open>num_ceps \<le> num_mel_bins\<close> has passed).
\<close>

theorem channel_default:
  assumes "kw_channel kw = - 1"
  shows "spectrogram rand kw (w\<lparr>w_rows := x # xs\<rparr>) = spectrogram rand kw (w\<lparr>w_rows := [x]\<rparr>)
       \<and> fbank rand kw (w\<lparr>w_rows := x # xs\<rparr>) = fbank rand kw (w\<lparr>w_rows := [x]\<rparr>)
       \<and> mfcc rand kw (w\<lparr>w_rows := x # xs\<rparr>) = mfcc rand kw (w\<lparr>w_rows := [x]\<rparr>)
       \<and> spectrogram rand kw (w\<lparr>w_rows := []\<rparr>)
           = Inl (AssertionError ''Invalid channel {} for size {}'')
       \<and> fbank rand kw (w\<lparr>w_rows := []\<rparr>) = Inl (AssertionError ''Invalid channel {} for size {}'')
       \<and> (kw_num_ceps kw \<le> kw_num_mel_bins kw \<longrightarrow>
            mfcc rand kw (w\<lparr>w_rows := []\<rparr>) = Inl (AssertionError ''Invalid channel {} for size {}''))"
  using spectrogram_channel_default[OF assms] fbank_channel_default[OF assms]
    mfcc_channel_default[OF assms]
  by (intro conjI impI) blast+

theorem channel_default_witness:
  "spectrogram rand_half short_kw (contiguous2 [[1, 2], [3, 4]])
     = spectrogram rand_half short_kw (contiguous2 [[1, 2]])
   \<and> fbank rand_half short_kw (contiguous2 [[1, 2], [3, 4]])
     = fbank rand_half short_kw (contiguous2 [[1, 2]])
   \<and> mfcc rand_half short_kw (contiguous2 [[1, 2], [3, 4]])
     = mfcc rand_half short_kw (contiguous2 [[1, 2]])
   \<and> spectrogram rand_half short_kw (contiguous2 [])
     = Inl (AssertionError ''Invalid channel {} for size {}'')
   \<and> mfcc rand_half short_kw (contiguous2 [])
     = Inl (AssertionError ''Invalid channel {} for size {}'')"
proof -
  have "kw_channel short_kw = - 1" "kw_num_ceps short_kw \<le> kw_num_mel_bins short_kw"
    by (simp_all add: short_kw_def defaults_def)
  with channel_default [where kw = short_kw and rand = rand_half
      and w = "contiguous2 []" and x = "[1, 2]" and xs = "[[3, 4]]"] show ?thesis
    by (simp add: contiguous2_def)
qed

subsection \<open>Mel bank\<close>

lemma map2_map_same: "map2 h (map f xs) (map g xs) = map (\<lambda>x. h (f x) (g x)) xs"
  by (induction xs) auto

lemma mel_scale_scalar_mono:
  assumes "0 \<le> lo" "lo < hi"
  shows "mel_scale_scalar lo < mel_scale_scalar hi"
  using assms by (simp add: mel_scale_scalar_def)

lemma masked_assign_nonneg:
  assumes "\<forall>w \<in> set r. 0 \<le> w"
    and "\<forall>j < min (length b) (length v). b ! j \<longrightarrow> 0 \<le> v ! j"
  shows "\<forall>w \<in> set (masked_assign r b v). (0::real) \<le> w"
  using assms by (auto simp: masked_assign_def in_set_zip)

lemma masked_assign2_nonneg:
  assumes "nonneg2 res" "mask_nonneg2 msk vals"
  shows "nonneg2 (masked_assign2 res msk vals)"
  unfolding nonneg2_def masked_assign2_def
proof (intro ballI)
  fix row w
  assume "row \<in> set (map (\<lambda>(r, b, v). masked_assign r b v) (zip res (zip msk vals)))"
    and w: "w \<in> set row"
  then obtain i where i: "i < length res" "i < length msk" "i < length vals"
    and row: "row = masked_assign (res ! i) (msk ! i) (vals ! i)"
    by (auto simp: in_set_zip)
  have "res ! i \<in> set res" using i by simp
  then have "\<forall>w \<in> set (res ! i). 0 \<le> w" using assms(1) by (simp add: nonneg2_def)
  moreover have "\<forall>j < min (length (msk ! i)) (length (vals ! i)). msk ! i ! j \<longrightarrow> 0 \<le> vals ! i ! j"
    using assms(2) i by (simp add: mask_nonneg2_def)
  ultimately show "0 \<le> w" using masked_assign_nonneg w row by blast
qed

lemma mask_nonneg2_map2:
  assumes "\<And>x y m. c x y m \<Longrightarrow> 0 \<le> v x y m"
  shows "mask_nonneg2 (map2 (\<lambda>x y. map (c x y) mel) xs ys) (map2 (\<lambda>x y. map (v x y) mel) xs ys)"
  using assms by (auto simp: mask_nonneg2_def)

lemma mask_nonneg2_map2_swap:
  assumes "\<And>x y m. c x y m \<Longrightarrow> 0 \<le> v y x m"
  shows "mask_nonneg2 (map2 (\<lambda>x y. map (c x y) mel) xs ys) (map2 (\<lambda>y x. map (v y x) mel) ys xs)"
  using assms by (auto simp: mask_nonneg2_def)

lemma triangle_weight_bounds:
  fixes l c r m :: real
  assumes "0 < c - l" "r - c = c - l"
  shows "0 \<le> max 0 (min ((m - l) / (c - l)) ((r - m) / (r - c)))"
    and "max 0 (min ((m - l) / (c - l)) ((r - m) / (r - c))) \<le> 1"
proof -
  let ?u = "(m - l) / (c - l)" and ?d = "(r - m) / (r - c)"
  have "?d = (r - m) / (c - l)" by (simp only: assms(2))
  then have "?u + ?d = ((m - l) + (r - m)) / (c - l)"
    by (simp only: add_divide_distrib)
  also have "(m - l) + (r - m) = 2 * (c - l)" using assms(2) by argo
  also have "2 * (c - l) / (c - l) = 2"
    using assms(1) by (intro nonzero_mult_div_cancel_right) simp
  finally have "min ?u ?d \<le> 1" by linarith
  then show "max 0 (min ?u ?d) \<le> 1" by simp
  show "0 \<le> max 0 (min ?u ?d)" by simp
qed

lemma unwarped_bins_unit:
  fixes ml d :: real and bin :: "real list"
  assumes "0 < d"
  defines "L \<equiv> map (\<lambda>b. ml + b * d) bin"
  defines "C \<equiv> map (\<lambda>b. ml + (b + 1) * d) bin"
  defines "R \<equiv> map (\<lambda>b. ml + (b + 2) * d) bin"
  assumes "row \<in> set (map2 (map2 (\<lambda>u d. max 0 (min u d)))
                        (map2 (\<lambda>left center. map (\<lambda>m. (m - left) / (center - left)) mel) L C)
                        (map2 (\<lambda>right center. map (\<lambda>m. (right - m) / (right - center)) mel) R C))"
    and "w \<in> set row"
  shows "0 \<le> w \<and> w \<le> 1"
proof -
  from assms(5) obtain i where i: "i < length bin"
    and row: "row = map2 (\<lambda>u d. max 0 (min u d))
                      (map (\<lambda>m. (m - L ! i) / (C ! i - L ! i)) mel)
                      (map (\<lambda>m. (R ! i - m) / (R ! i - C ! i)) mel)"
    by (auto simp: in_set_zip L_def C_def R_def)
  from assms(6) row obtain j where j: "j < length mel"
    and w: "w = max 0 (min ((mel ! j - L ! i) / (C ! i - L ! i)) ((R ! i - mel ! j) / (R ! i - C ! i)))"
    by (auto simp: in_set_zip)
  have 1: "0 < C ! i - L ! i" using i assms(1) by (simp add: L_def C_def algebra_simps)
  have 2: "R ! i - C ! i = C ! i - L ! i" using i by (simp add: L_def C_def R_def algebra_simps)
  show ?thesis unfolding w using triangle_weight_bounds[OF 1 2] by blast
qed

lemma get_mel_banks_unwarped:
  assumes "get_mel_banks nb wlp sf low high vl vh 1 = Inr (bins, cf)"
  shows "\<exists>ml d bin mel. 0 < d \<and> length bin = nat nb \<and> length mel = nat (wlp div 2) \<and>
           bins = map2 (map2 (\<lambda>u d. max 0 (min u d)))
                   (map2 (\<lambda>left center. map (\<lambda>m. (m - left) / (center - left)) mel)
                      (map (\<lambda>b. ml + b * d) bin) (map (\<lambda>b. ml + (b + 1) * d) bin))
                   (map2 (\<lambda>right center. map (\<lambda>m. (right - m) / (right - center)) mel)
                      (map (\<lambda>b. ml + (b + 2) * d) bin) (map (\<lambda>b. ml + (b + 1) * d) bin))"
proof -
  define H where "H = (if high \<le> 0 then high + 1 / 2 * sf else high)"
  define ml where "ml = mel_scale_scalar low"
  define d where "d = (mel_scale_scalar H - mel_scale_scalar low) / real_of_int (nb + 1)"
  define mel where "mel = mel_scale (map (\<lambda>j. sf / real_of_int wlp * j) (arange \<lceil>real_of_int wlp / 2\<rceil>))"
  note defs = H_def ml_def d_def mel_def
  have valid: "3 < nb" "wlp mod 2 = 0" "0 \<le> low" "low < H" "\<not> real_of_int wlp / 2 < 0"
    and bins: "bins = map2 (map2 (\<lambda>u d. max 0 (min u d)))
                   (map2 (\<lambda>left center. map (\<lambda>m. (m - left) / (center - left)) mel)
                      (map (\<lambda>b. ml + b * d) (arange nb)) (map (\<lambda>b. ml + (b + 1) * d) (arange nb)))
                   (map2 (\<lambda>right center. map (\<lambda>m. (right - m) / (right - center)) mel)
                      (map (\<lambda>b. ml + (b + 2) * d) (arange nb)) (map (\<lambda>b. ml + (b + 1) * d) (arange nb)))"
  proof -
    show "3 < nb" "wlp mod 2 = 0" "0 \<le> low" "low < H" "\<not> real_of_int wlp / 2 < 0"
      using assms unfolding H_def
      by (simp_all add: get_mel_banks_def Let_def split: if_splits)
    show "bins = map2 (map2 (\<lambda>u d. max 0 (min u d)))
                   (map2 (\<lambda>left center. map (\<lambda>m. (m - left) / (center - left)) mel)
                      (map (\<lambda>b. ml + b * d) (arange nb)) (map (\<lambda>b. ml + (b + 1) * d) (arange nb)))
                   (map2 (\<lambda>right center. map (\<lambda>m. (right - m) / (right - center)) mel)
                      (map (\<lambda>b. ml + (b + 2) * d) (arange nb)) (map (\<lambda>b. ml + (b + 1) * d) (arange nb)))"
      using assms unfolding get_mel_banks_def Let_def defs
      apply (elim if_InlE)
      apply (simp only: simp_thms if_False if_True err_bind_simps prod.case)
      apply (elim if_InlE)
      apply (simp only: sum.inject prod.inject)
      done
  qed
  have "0 < mel_scale_scalar H - mel_scale_scalar low"
    using mel_scale_scalar_mono[OF valid(3,4)] by simp
  then have "0 < d" using valid(1) by (simp add: d_def)
  moreover have "length (arange nb) = nat nb" by (simp add: arange_def)
  moreover have "\<lceil>real_of_int wlp / 2\<rceil> = wlp div 2"
  proof -
    have "wlp = 2 * (wlp div 2)" using valid(2) by presburger
    then have "real_of_int wlp / 2 = real_of_int (wlp div 2)"
      by (metis nonzero_mult_div_cancel_left of_int_mult of_int_numeral zero_neq_numeral)
    then show ?thesis by simp
  qed
  then have "length mel = nat (wlp div 2)" by (simp add: mel_def mel_scale_def arange_def)
  ultimately show ?thesis using bins by blast
qed

lemma mel_banks_unwarped_unit:
  assumes "get_mel_banks nb wlp sf low high vl vh 1 = Inr (bins, cf)"
    and "row \<in> set bins" "w \<in> set row"
  shows "0 \<le> w \<and> w \<le> 1"
proof -
  from get_mel_banks_unwarped[OF assms(1)] obtain ml d bin mel where "0 < d"
    and "bins = map2 (map2 (\<lambda>u d. max 0 (min u d)))
                   (map2 (\<lambda>left center. map (\<lambda>m. (m - left) / (center - left)) mel)
                      (map (\<lambda>b. ml + b * d) bin) (map (\<lambda>b. ml + (b + 1) * d) bin))
                   (map2 (\<lambda>right center. map (\<lambda>m. (right - m) / (right - center)) mel)
                      (map (\<lambda>b. ml + (b + 2) * d) bin) (map (\<lambda>b. ml + (b + 1) * d) bin))"
    by blast
  with unwarped_bins_unit[OF \<open>0 < d\<close>, of row mel ml bin w] assms(2,3) show ?thesis by blast
qed

lemma get_mel_banks_warped:
  assumes "get_mel_banks nb wlp sf low high vl vh warp = Inr (bins, cf)" "warp \<noteq> 1"
  shows "\<exists>L C R mel.
           bins = masked_assign2
                    (masked_assign2
                       (map (map (\<lambda>u. 0))
                          (map2 (\<lambda>left center. map (\<lambda>m. (m - left) / (center - left)) mel) L C))
                       (map2 (\<lambda>left center. map (\<lambda>m. m > left \<and> m \<le> center) mel) L C)
                       (map2 (\<lambda>left center. map (\<lambda>m. (m - left) / (center - left)) mel) L C))
                    (map2 (\<lambda>center right. map (\<lambda>m. m > center \<and> m < right) mel) C R)
                    (map2 (\<lambda>right center. map (\<lambda>m. (right - m) / (right - center)) mel) R C)"
  using assms unfolding get_mel_banks_def Let_def
  apply (elim if_InlE)
  apply (simp only: simp_thms if_False if_True)
  apply (elim err_bind_InrE)
  apply (simp only: sum.inject)
  apply hypsubst_thin
  apply (simp only: prod.case)
  apply (elim if_InlE)
  apply (simp only: sum.inject prod.inject)
  apply (elim conjE)
  apply (rule exI)+
  apply (erule sym)
  done

lemma mel_banks_warped_nonneg:
  assumes "get_mel_banks nb wlp sf low high vl vh warp = Inr (bins, cf)" "warp \<noteq> 1"
  shows "nonneg2 bins"
proof -
  from get_mel_banks_warped[OF assms] obtain L C R mel where
    bins: "bins = masked_assign2
                    (masked_assign2
                       (map (map (\<lambda>u. 0))
                          (map2 (\<lambda>left center. map (\<lambda>m. (m - left) / (center - left)) mel) L C))
                       (map2 (\<lambda>left center. map (\<lambda>m. m > left \<and> m \<le> center) mel) L C)
                       (map2 (\<lambda>left center. map (\<lambda>m. (m - left) / (center - left)) mel) L C))
                    (map2 (\<lambda>center right. map (\<lambda>m. m > center \<and> m < right) mel) C R)
                    (map2 (\<lambda>right center. map (\<lambda>m. (right - m) / (right - center)) mel) R C)"
    by blast
  have z: "nonneg2 (map (map (\<lambda>u. 0)) M)" for M :: "real list list"
    by (auto simp: nonneg2_def)
  have up: "mask_nonneg2 (map2 (\<lambda>left center. map (\<lambda>m. m > left \<and> m \<le> center) mel) L C)
                         (map2 (\<lambda>left center. map (\<lambda>m. (m - left) / (center - left)) mel) L C)"
    by (rule mask_nonneg2_map2[where c = "\<lambda>left center m. m > left \<and> m \<le> center"
          and v = "\<lambda>left center m. (m - left) / (center - left)"]) simp
  have down: "mask_nonneg2 (map2 (\<lambda>center right. map (\<lambda>m. m > center \<and> m < right) mel) C R)
                           (map2 (\<lambda>right center. map (\<lambda>m. (right - m) / (right - center)) mel) R C)"
    by (rule mask_nonneg2_map2_swap[where c = "\<lambda>center right m. m > center \<and> m < right"
          and v = "\<lambda>right center m. (right - m) / (right - center)"]) simp
  show ?thesis
    unfolding bins by (intro masked_assign2_nonneg z up down)
qed

text \<open>
  C7, in exact arithmetic. For every configuration that \<open>get_mel_banks\<close> accepts, every
  row of the mel bank has a non-negative sum; with \<open>vtln_warp_factor = 1\<close> every weight is
  \<open>max 0 (min up_slope down_slope)\<close> over boundaries \<open>left < center < right\<close> one mel step
  \<open>mel_freq_delta > 0\<close> apart (lemma \<open>get_mel_banks_unwarped\<close>), and lies between 0 and 1.
  The step is positive because \<open>low_freq < high_freq\<close> is asserted and the mel scale is
  strictly increasing on the reals. In floating point the assertion does not carry over
  to the mel scale: \<open>1.0 + 1e-14 / 700.0\<close> rounds to \<open>1.0\<close>, so \<open>low_freq = 0.0\<close>,
  \<open>high_freq = 1e-14\<close> passes every assertion with \<open>mel_freq_delta = 0.0\<close>, and the slopes
  of the first FFT bin are zero divided by zero. Rounding is outside this model, whose
  numbers are the reals.
\<close>

lemma mel_banks_weights_exact:
  assumes "get_mel_banks nb wlp sf low high vl vh warp = Inr (bins, cf)"
  shows "(\<forall>row \<in> set bins. 0 \<le> sum_list row)
       \<and> (warp = 1 \<longrightarrow> (\<forall>row \<in> set bins. \<forall>w \<in> set row. 0 \<le> w \<and> w \<le> 1))"
proof -
  have unit: "\<forall>row \<in> set bins. \<forall>w \<in> set row. 0 \<le> w \<and> w \<le> 1" if "warp = 1"
    using mel_banks_unwarped_unit assms that by blast
  have "nonneg2 bins"
  proof (cases "warp = 1")
    case True
    then show ?thesis using unit by (simp add: nonneg2_def)
  next
    case False
    then show ?thesis using mel_banks_warped_nonneg[OF assms] by simp
  qed
  then have "\<forall>row \<in> set bins. 0 \<le> sum_list row"
    by (auto simp: nonneg2_def intro: sum_list_nonneg)
  then show ?thesis using unit by blast
qed

lemma mel_banks_sample: "\<exists>bins cf. get_mel_banks 4 8 16000 20 0 100 (- 500) 1 = Inr (bins, cf)"
  by (simp add: get_mel_banks_def Let_def)

lemma mel_banks_weights_exact_sample:
  "\<exists>bins cf. get_mel_banks 4 8 16000 20 0 100 (- 500) 1 = Inr (bins, cf)
      \<and> length bins = 4
      \<and> (\<forall>row \<in> set bins. 0 \<le> sum_list row \<and> (\<forall>w \<in> set row. 0 \<le> w \<and> w \<le> 1))"
proof -
  from mel_banks_sample obtain bins cf
    where e: "get_mel_banks 4 8 16000 20 0 100 (- 500) 1 = Inr (bins, cf)" by blast
  from get_mel_banks_unwarped[OF e] have "length bins = 4" by auto
  with mel_banks_weights_exact[OF e] e show ?thesis by blast
qed

lemma even_half_ceiling: "wlp mod 2 = 0 \<Longrightarrow> \<lceil>real_of_int wlp / 2\<rceil> = wlp div 2"
proof -
  assume "wlp mod 2 = 0"
  then have "wlp = 2 * (wlp div 2)" by presburger
  then have "real_of_int wlp / 2 = real_of_int (wlp div 2)"
    by (metis nonzero_mult_div_cancel_left of_int_mult of_int_numeral zero_neq_numeral)
  then show ?thesis by simp
qed

lemma length_masked_assign:
  "length (masked_assign r b v) = min (length r) (min (length b) (length v))"
  by (simp add: masked_assign_def)

lemma length_masked_assign2:
  "length (masked_assign2 res msk vals) = min (length res) (min (length msk) (length vals))"
  by (simp add: masked_assign2_def)

lemma masked_assign2_rows:
  assumes "\<forall>r \<in> set res. length r = k" "\<forall>r \<in> set msk. length r = k"
    "\<forall>r \<in> set vals. length r = k"
  shows "\<forall>r \<in> set (masked_assign2 res msk vals). length r = k"
proof
  fix r assume "r \<in> set (masked_assign2 res msk vals)"
  then obtain i where i: "i < length res" "i < length msk" "i < length vals"
    and r: "r = masked_assign (res ! i) (msk ! i) (vals ! i)"
    by (auto simp: masked_assign2_def in_set_zip)
  have "length (res ! i) = k" "length (msk ! i) = k" "length (vals ! i) = k"
    using assms i by (simp_all add: nth_mem)
  then show "length r = k" by (simp add: r length_masked_assign)
qed

lemma map2_rows: "\<forall>r \<in> set (map2 (\<lambda>x y. map (f x y) mel) xs ys). length r = length mel"
  by (auto simp: in_set_zip)

lemma vtln_warp_mel_freq_length:
  assumes "vtln_warp_mel_freq a b c d e xs = Inr ys"
  shows "length ys = length xs"
  using assms
  by (auto simp: vtln_warp_mel_freq_def vtln_warp_freq_def Let_def mel_scale_def inverse_mel_scale_def
      length_masked_assign elim!: err_bind_InrE split: if_splits)

lemma get_mel_banks_valid:
  assumes "get_mel_banks nb wlp sf low high vl vh warp = Inr (bins, cf)"
  shows "3 < nb" "0 < wlp" "wlp mod 2 = 0"
  using assms by (auto simp: get_mel_banks_def Let_def err_bind_def split: if_splits sum.splits)

lemma get_mel_banks_warped_lengths:
  assumes "get_mel_banks nb wlp sf low high vl vh warp = Inr (bins, cf)" "warp \<noteq> 1"
  shows "\<exists>L C R mel. length L = nat nb \<and> length C = nat nb \<and> length R = nat nb
           \<and> length mel = nat (wlp div 2) \<and>
           bins = masked_assign2
                    (masked_assign2
                       (map (map (\<lambda>u. 0))
                          (map2 (\<lambda>left center. map (\<lambda>m. (m - left) / (center - left)) mel) L C))
                       (map2 (\<lambda>left center. map (\<lambda>m. m > left \<and> m \<le> center) mel) L C)
                       (map2 (\<lambda>left center. map (\<lambda>m. (m - left) / (center - left)) mel) L C))
                    (map2 (\<lambda>center right. map (\<lambda>m. m > center \<and> m < right) mel) C R)
                    (map2 (\<lambda>right center. map (\<lambda>m. (right - m) / (right - center)) mel) R C)"
  using assms unfolding get_mel_banks_def Let_def
  apply (elim if_InlE)
  apply (simp only: simp_thms if_False if_True)
  apply (elim err_bind_InrE)
  apply (simp only: sum.inject)
  apply hypsubst_thin
  apply (simp only: prod.case)
  apply (elim if_InlE)
  apply (simp only: sum.inject prod.inject)
  apply (elim conjE)
  apply (drule vtln_warp_mel_freq_length)+
  apply (rule exI)+
  apply (intro conjI)
      prefer 5 apply (erule sym)
     apply (simp_all add: arange_def mel_scale_def even_half_ceiling)
  done

lemma get_mel_banks_shape:
  assumes "get_mel_banks nb wlp sf low high vl vh warp = Inr (bins, cf)"
  shows "length bins = nat nb" "\<forall>row \<in> set bins. length row = nat (wlp div 2)"
proof -
  have "length bins = nat nb \<and> (\<forall>row \<in> set bins. length row = nat (wlp div 2))"
  proof (cases "warp = 1")
    case True
    from get_mel_banks_unwarped[OF assms[unfolded True]] obtain ml d bin mel where
      "length bin = nat nb" "length mel = nat (wlp div 2)"
      and "bins = map2 (map2 (\<lambda>u d. max 0 (min u d)))
                   (map2 (\<lambda>left center. map (\<lambda>m. (m - left) / (center - left)) mel)
                      (map (\<lambda>b. ml + b * d) bin) (map (\<lambda>b. ml + (b + 1) * d) bin))
                   (map2 (\<lambda>right center. map (\<lambda>m. (right - m) / (right - center)) mel)
                      (map (\<lambda>b. ml + (b + 2) * d) bin) (map (\<lambda>b. ml + (b + 1) * d) bin))"
      by blast
    then show ?thesis by (auto simp: in_set_zip)
  next
    case False
    from get_mel_banks_warped_lengths[OF assms False] obtain L C R mel where
      len: "length L = nat nb" "length C = nat nb" "length R = nat nb" "length mel = nat (wlp div 2)"
      and bins: "bins = masked_assign2
                    (masked_assign2
                       (map (map (\<lambda>u. 0))
                          (map2 (\<lambda>left center. map (\<lambda>m. (m - left) / (center - left)) mel) L C))
                       (map2 (\<lambda>left center. map (\<lambda>m. m > left \<and> m \<le> center) mel) L C)
                       (map2 (\<lambda>left center. map (\<lambda>m. (m - left) / (center - left)) mel) L C))
                    (map2 (\<lambda>center right. map (\<lambda>m. m > center \<and> m < right) mel) C R)
                    (map2 (\<lambda>right center. map (\<lambda>m. (right - m) / (right - center)) mel) R C)"
      by blast
    have z: "\<forall>r \<in> set (map (map (\<lambda>u. 0::real)) (map2 (\<lambda>left center. map (\<lambda>m. (m - left) / (center - left)) mel) L C)). length r = length mel"
      by (auto simp: in_set_zip)
    have rows: "\<forall>row \<in> set bins. length row = length mel"
      unfolding bins by (intro masked_assign2_rows z map2_rows)
    have "length bins = nat nb"
      unfolding bins by (simp add: length_masked_assign2 len)
    then show ?thesis using rows len(4) by simp
  qed
  then show "length bins = nat nb" "\<forall>row \<in> set bins. length row = nat (wlp div 2)" by simp_all
qed

lemma length_matT: "length (matT M) = ncols M"
  by (simp add: matT_def)

lemma nth_matT: "j < ncols M \<Longrightarrow> matT M ! j = map (\<lambda>row. row ! j) M"
  by (simp add: matT_def)

lemma ncols_matT: "0 < ncols M \<Longrightarrow> ncols (matT M) = length M"
  by (cases "[0..<ncols M]") (auto simp: matT_def ncols_def upt_rec split: list.splits)

lemma torch_mm_pad_zero:
  assumes "bank \<noteq> []" "\<forall>row \<in> set bank. length row = k" "\<forall>s \<in> set S. length s = k + 1" "0 < k"
  shows "torch_mm S (matT (map (\<lambda>row. row @ [0]) bank)) = torch_mm (map butlast S) (matT bank)"
proof -
  let ?P = "map (\<lambda>row. row @ [0]) bank"
  have nc: "ncols bank = k" "ncols ?P = k + 1"
    using assms(1,2) by (cases bank; simp add: ncols_def)+
  have lenP: "length (matT ?P) = k + 1" and lenB: "length (matT bank) = k"
    by (simp_all add: length_matT nc)
  have ncP: "ncols (matT ?P) = length bank" and ncB: "ncols (matT bank) = length bank"
    using ncols_matT[of ?P] ncols_matT[of bank] nc assms(4) by simp_all
  have low: "matT ?P ! t ! j = matT bank ! t ! j" if "t < k" "j < length bank" for t j
    using that assms(2) nc by (simp add: nth_matT nth_append)
  have top: "matT ?P ! k ! j = 0" if "j < length bank" for j
    using that assms(2) nc by (simp add: nth_matT nth_append)
  have row: "map (\<lambda>j. \<Sum>t < k + 1. s ! t * matT ?P ! t ! j) [0..<length bank]
           = map (\<lambda>j. \<Sum>t < k. butlast s ! t * matT bank ! t ! j) [0..<length bank]"
    if "s \<in> set S" for s
  proof -
    have ls: "length s = k + 1" using that assms(3) by simp
    show ?thesis
    proof (rule map_cong[OF refl])
      fix j assume "j \<in> set [0..<length bank]"
      then have j: "j < length bank" by simp
      have "(\<Sum>t < k + 1. s ! t * matT ?P ! t ! j) = (\<Sum>t < k. s ! t * matT ?P ! t ! j) + s ! k * matT ?P ! k ! j"
        by simp
      also have "\<dots> = (\<Sum>t < k. s ! t * matT ?P ! t ! j)" using top[OF j] by simp
      also have "\<dots> = (\<Sum>t < k. butlast s ! t * matT bank ! t ! j)"
        using low j ls by (intro sum.cong) (auto simp: nth_butlast)
      finally show "(\<Sum>t < k + 1. s ! t * matT ?P ! t ! j) = (\<Sum>t < k. butlast s ! t * matT bank ! t ! j)" .
    qed
  qed
  show ?thesis
    using assms(3) row by (auto simp: torch_mm_def lenP lenB ncP ncB)
qed

subsection \<open>Filterbank and cepstra\<close>

lemma length_rfft: "length (rfft x) = length x div 2 + 1"
  by (simp add: rfft_def)

lemma get_window_strided:
  assumes "get_window rand w pws ws sh wt bc se re fl di dc pc = Inr r"
  shows "\<exists>S0. get_strided w ws sh se = Inr S0"
  using assms by (cases "get_strided w ws sh se") (simp_all add: get_window_def Let_def)

lemma fbank_product:
  assumes val: "get_waveform_and_window_properties waveform ch sf fs fl r2 pc = Inr (wave, sh, ws, pws)"
    and win: "get_window rand wave pws ws sh wt bc se re ef di dc pc' = Inr (S, E)"
    and bank: "get_mel_banks nb pws sf' lo hi vl vh warp = Inr (bank, cf)"
    and sp: "spectrum = map (\<lambda>row. map f (rfft row)) S \<or> spectrum = map (map g) (map (\<lambda>row. map f (rfft row)) S)"
  shows "\<forall>row \<in> set bank. length row = nat (pws div 2)"
    and "\<forall>row \<in> set spectrum. length row = nat (pws div 2) + 1"
    and "torch_mm spectrum (matT (map (\<lambda>row. row @ [0]) bank)) = torch_mm (map butlast spectrum) (matT bank)"
proof -
  note v = validation_window[OF val]
  from get_window_strided[OF win] obtain S0 where s0: "get_strided wave ws sh se = Inr S0" ..
  have ws: "0 < ws" using v(1) by simp
  from get_window_result(1)[OF s0 ws v(4) win]
  have rows: "\<forall>row \<in> set S. length row = nat pws" by simp
  note shape = get_mel_banks_shape[OF bank] and valid = get_mel_banks_valid[OF bank]
  show b: "\<forall>row \<in> set bank. length row = nat (pws div 2)" by (rule shape(2))
  have half: "nat pws div 2 = nat (pws div 2)" using valid(2) by (simp add: nat_div_distrib)
  show s: "\<forall>row \<in> set spectrum. length row = nat (pws div 2) + 1"
    using sp rows half by (auto simp: length_rfft)
  have "bank \<noteq> []" using shape(1) valid(1) by auto
  moreover have "0 < pws div 2" using valid(2,3) by presburger
  then have "0 < nat (pws div 2)" by simp
  ultimately show "torch_mm spectrum (matT (map (\<lambda>row. row @ [0]) bank))
           = torch_mm (map butlast spectrum) (matT bank)"
    using torch_mm_pad_zero[OF _ b s] by blast
qed

lemma fbank_eq_low_bins:
  "fbank rand kw waveform = fbank_low_bins rand kw waveform"
proof (cases "get_waveform_and_window_properties waveform (kw_channel kw)
                 (kw_sample_frequency kw) (kw_frame_shift kw) (kw_frame_length kw)
                 (kw_round_to_power_of_two kw) (kw_preemphasis_coefficient kw)")
  case (Inl e)
  then show ?thesis by (simp add: fbank_def fbank_low_bins_def)
next
  case (Inr r)
  obtain wave sh ws pws where r: "r = (wave, sh, ws, pws)" by (cases r) auto
  note val = Inr[unfolded r]
  show ?thesis
  proof (cases "real (length (v_elems wave)) < kw_min_duration kw * kw_sample_frequency kw")
    case True
    then show ?thesis using val by (simp add: fbank_def fbank_low_bins_def)
  next
    case long: False
    show ?thesis
    proof (cases "get_window rand wave pws ws sh
                     (kw_window_type kw) (kw_blackman_coeff kw) (kw_snip_edges kw)
                     (kw_raw_energy kw) (kw_energy_floor kw) (kw_dither kw)
                     (kw_remove_dc_offset kw) (kw_preemphasis_coefficient kw)")
      case (Inl e)
      then show ?thesis using val long by (simp add: fbank_def fbank_low_bins_def)
    next
      case win: (Inr q)
      obtain S E where q: "q = (S, E)" by (cases q) auto
      note win = win[unfolded q]
      show ?thesis
      proof (cases "get_mel_banks (kw_num_mel_bins kw) pws (kw_sample_frequency kw)
                        (kw_low_freq kw) (kw_high_freq kw) (kw_vtln_low kw) (kw_vtln_high kw)
                        (kw_vtln_warp kw)")
        case (Inl e)
        then show ?thesis using val long win by (simp add: fbank_def fbank_low_bins_def Let_def)
      next
        case bank: (Inr b)
        obtain B cf where b: "b = (B, cf)" by (cases b) auto
        note bank = bank[unfolded b]
        have p1: "torch_mm (map (\<lambda>row. map cmod (rfft row)) S) (matT (map (\<lambda>row. row @ [0]) B))
                   = torch_mm (map butlast (map (\<lambda>row. map cmod (rfft row)) S)) (matT B)"
          by (rule fbank_product(3)[OF val win bank, where f = cmod]) (rule disjI1, rule refl)
        have p2: "torch_mm (map (map (\<lambda>x. x ^ 2)) (map (\<lambda>row. map cmod (rfft row)) S))
                           (matT (map (\<lambda>row. row @ [0]) B))
                   = torch_mm (map butlast (map (map (\<lambda>x. x ^ 2)) (map (\<lambda>row. map cmod (rfft row)) S)))
                              (matT B)"
          by (rule fbank_product(3)[OF val win bank, where f = cmod and g = "\<lambda>x. x ^ 2"])
            (rule disjI2, rule refl)
        show ?thesis
        proof (cases "kw_use_power kw")
          case True
          show ?thesis
            apply (simp only: fbank_def fbank_low_bins_def val err_bind_simps prod.case long if_False)
            apply (simp only: win bank err_bind_simps prod.case Let_def True if_True p2)
            done
        next
          case False
          show ?thesis
            apply (simp only: fbank_def fbank_low_bins_def val err_bind_simps prod.case long if_False)
            apply (simp only: win bank err_bind_simps prod.case Let_def False if_False p1)
            done
        qed
      qed
    qed
  qed
qed

lemma get_strided_snip_nonempty:
  assumes "0 < ws" "0 < sh" "ws \<le> int (length (v_elems w))" "view_ok w"
  shows "\<exists>S. get_strided w ws sh True = Inr S \<and> S \<noteq> []"
proof -
  let ?n = "int (length (v_elems w))"
  let ?m = "1 + (?n - ws) div sh"
  have d: "0 \<le> (?n - ws) div sh"
    using assms(2,3) by (simp add: pos_imp_zdiv_nonneg_iff)
  then have mpos: "0 \<le> ?m" by simp
  have "(?n - ws) div sh * sh \<le> ?n - ws" by (rule div_mult_le_int[OF assms(2)])
  then have inb: "?m = 0 \<or> ws = 0 \<or> (?m - 1) * sh + ws \<le> ?n" by simp
  have ws0: "0 \<le> ws" using assms(1) by simp
  from as_strided_frames[OF mpos ws0 assms(2) assms(4) inb]
  have "get_strided w ws sh True = Inr (frames_of (v_elems w) (nat ?m) (nat ws) (nat sh))"
    using assms(2,3) by (simp add: get_strided_def Let_def)
  moreover have "0 < nat ?m" using d by simp
  then have "frames_of (v_elems w) (nat ?m) (nat ws) (nat sh) \<noteq> []"
    by (simp add: frames_of_def)
  ultimately show ?thesis by blast
qed

lemma torch_mm_rows:
  assumes "torch_mm A B = Inr M"
  shows "length M = length A" "\<forall>row \<in> set M. length row = ncols B"
  using assms by (auto simp: torch_mm_def split: if_splits)

text \<open>
  With the Povey window, \<open>snip_edges\<close> and an energy floor that has a logarithm, \<open>fbank\<close>
  returns a matrix of one row per frame, at least one, whenever its validation and
  \<open>get_mel_banks\<close> accept the configuration and the signal is not shorter than
  \<open>min_duration\<close>.
\<close>

lemma fbank_ok:
  assumes val: "get_waveform_and_window_properties waveform (kw_channel kw)
                 (kw_sample_frequency kw) (kw_frame_shift kw) (kw_frame_length kw)
                 (kw_round_to_power_of_two kw) (kw_preemphasis_coefficient kw) = Inr (wave, sh, ws, pws)"
    and long: "\<not> real (length (v_elems wave)) < kw_min_duration kw * kw_sample_frequency kw"
    and bank: "get_mel_banks (kw_num_mel_bins kw) pws (kw_sample_frequency kw)
                 (kw_low_freq kw) (kw_high_freq kw) (kw_vtln_low kw) (kw_vtln_high kw)
                 (kw_vtln_warp kw) = Inr (B, cf)"
    and kw: "kw_window_type kw = POVEY" "0 \<le> kw_energy_floor kw" "kw_snip_edges kw"
      "\<not> kw_use_energy kw" "\<not> kw_subtract_mean kw"
    and ok: "view_ok wave"
  shows "\<exists>S E F. get_window rand wave pws ws sh (kw_window_type kw) (kw_blackman_coeff kw)
                   (kw_snip_edges kw) (kw_raw_energy kw) (kw_energy_floor kw) (kw_dither kw)
                   (kw_remove_dc_offset kw) (kw_preemphasis_coefficient kw) = Inr (S, E)
               \<and> fbank rand kw waveform = Inr (Matrix F) \<and> F \<noteq> [] \<and> length F = length S
               \<and> (\<forall>row \<in> set F. length row = nat (kw_num_mel_bins kw))"
proof -
  note v = validation_window[OF val]
  have ws: "0 < ws" using v(1) by simp
  from get_strided_snip_nonempty[OF ws v(3) v(2) ok] obtain S0 where
    s0: "get_strided wave ws sh True = Inr S0" "S0 \<noteq> []" by blast
  from get_window_ok[OF s0(1) kw(2) ws v(4) s0(2)] obtain q where
    "get_window rand wave pws ws sh POVEY (kw_blackman_coeff kw) True (kw_raw_energy kw)
       (kw_energy_floor kw) (kw_dither kw) (kw_remove_dc_offset kw) (kw_preemphasis_coefficient kw)
     = Inr q" by blast
  then obtain S E where win: "get_window rand wave pws ws sh (kw_window_type kw) (kw_blackman_coeff kw)
       (kw_snip_edges kw) (kw_raw_energy kw) (kw_energy_floor kw) (kw_dither kw)
       (kw_remove_dc_offset kw) (kw_preemphasis_coefficient kw) = Inr (S, E)"
    using kw(1,3) by (cases q) simp
  from get_window_result(1)[OF _ ws v(4) win] s0 kw(3) have lenS: "length S = length S0" by simp
  define spectrum where "spectrum = (if kw_use_power kw
      then map (map (\<lambda>x. x ^ 2)) (map (\<lambda>row. map cmod (rfft row)) S)
      else map (\<lambda>row. map cmod (rfft row)) S)"
  have sp: "spectrum = map (\<lambda>row. map cmod (rfft row)) S
          \<or> spectrum = map (map (\<lambda>x. x ^ 2)) (map (\<lambda>row. map cmod (rfft row)) S)"
    by (simp add: spectrum_def)
  note prod = fbank_product[OF val win bank sp]
  note shape = get_mel_banks_shape[OF bank] and valid = get_mel_banks_valid[OF bank]
  let ?P = "map (\<lambda>row. row @ [0]) B"
  have Bne: "B \<noteq> []" using shape(1) valid(1) by auto
  then have ncP: "ncols ?P = nat (pws div 2) + 1"
    using prod(1) by (cases B) (simp_all add: ncols_def)
  have "length (matT ?P) = nat (pws div 2) + 1" by (simp add: length_matT ncP)
  then have "\<exists>M. torch_mm spectrum (matT ?P) = Inr M"
    using prod(2) by (simp add: torch_mm_def)
  then obtain M where mm: "torch_mm spectrum (matT ?P) = Inr M" ..
  have "ncols (matT ?P) = length B" using ncols_matT[of ?P] ncP by simp
  with torch_mm_rows[OF mm] shape(1)
  have M: "length M = length S" "\<forall>row \<in> set M. length row = nat (kw_num_mel_bins kw)"
    by (simp_all add: spectrum_def)
  define F where "F = (if kw_use_log_fbank kw then map (map (\<lambda>x. ln (max x get_epsilon))) M else M)"
  have "fbank rand kw waveform = Inr (Matrix F)"
    apply (simp only: fbank_def val err_bind_simps prod.case long if_False)
    apply (simp only: win bank err_bind_simps prod.case Let_def spectrum_def[symmetric] mm)
    apply (simp add: kw F_def subtract_column_mean_def)
    done
  moreover have "length F = length S" "F \<noteq> []" using M(1) lenS s0(2) by (auto simp: F_def)
  moreover have "\<forall>row \<in> set F. length row = nat (kw_num_mel_bins kw)" using M(2) by (auto simp: F_def)
  ultimately show ?thesis using win by blast
qed

text \<open>
  C10. \<open>fbank\<close> returns, on every input and for every configuration, what it returns when
  the Nyquist column of the spectrum is left out and the mel bank is not extended: the
  highest FFT bin contributes nothing to any mel energy. Wherever \<open>fbank\<close> gets as far as
  the matrix product, the bank that \<open>get_mel_banks\<close> returned has
  \<open>padded_window_size div 2\<close> columns, the extended bank has one more, the last of them
  zero, and the spectrum has \<open>padded_window_size div 2 + 1\<close> columns.
\<close>

theorem fbank_nyquist_bin_unused:
  "fbank rand kw waveform = fbank_low_bins rand kw waveform
   \<and> (get_waveform_and_window_properties waveform (kw_channel kw)
         (kw_sample_frequency kw) (kw_frame_shift kw) (kw_frame_length kw)
         (kw_round_to_power_of_two kw) (kw_preemphasis_coefficient kw) = Inr (wave, sh, ws, pws)
       \<and> get_window rand wave pws ws sh (kw_window_type kw) (kw_blackman_coeff kw)
           (kw_snip_edges kw) (kw_raw_energy kw) (kw_energy_floor kw) (kw_dither kw)
           (kw_remove_dc_offset kw) (kw_preemphasis_coefficient kw) = Inr (S, E)
       \<and> get_mel_banks (kw_num_mel_bins kw) pws (kw_sample_frequency kw)
           (kw_low_freq kw) (kw_high_freq kw) (kw_vtln_low kw) (kw_vtln_high kw)
           (kw_vtln_warp kw) = Inr (B, cf)
      \<longrightarrow> (\<forall>row \<in> set B. length row = nat (pws div 2))
          \<and> (\<forall>row \<in> set (map (\<lambda>row. row @ [0]) B).
                length row = nat (pws div 2) + 1 \<and> last row = 0)
          \<and> (\<forall>row \<in> set S. length (map cmod (rfft row)) = nat (pws div 2) + 1))"
proof (intro conjI impI; (elim conjE)?)
  show "fbank rand kw waveform = fbank_low_bins rand kw waveform"
    by (rule fbank_eq_low_bins)
next
  assume val: "get_waveform_and_window_properties waveform (kw_channel kw)
         (kw_sample_frequency kw) (kw_frame_shift kw) (kw_frame_length kw)
         (kw_round_to_power_of_two kw) (kw_preemphasis_coefficient kw) = Inr (wave, sh, ws, pws)"
    and win: "get_window rand wave pws ws sh (kw_window_type kw) (kw_blackman_coeff kw)
           (kw_snip_edges kw) (kw_raw_energy kw) (kw_energy_floor kw) (kw_dither kw)
           (kw_remove_dc_offset kw) (kw_preemphasis_coefficient kw) = Inr (S, E)"
    and bank: "get_mel_banks (kw_num_mel_bins kw) pws (kw_sample_frequency kw)
           (kw_low_freq kw) (kw_high_freq kw) (kw_vtln_low kw) (kw_vtln_high kw)
           (kw_vtln_warp kw) = Inr (B, cf)"
  have "map (\<lambda>row. map cmod (rfft row)) S = map (\<lambda>row. map cmod (rfft row)) S
          \<or> map (\<lambda>row. map cmod (rfft row)) S
              = map (map id) (map (\<lambda>row. map cmod (rfft row)) S)" by simp
  note prod = fbank_product[OF val win bank this]
  show "\<forall>row \<in> set B. length row = nat (pws div 2)" by (rule prod(1))
  then show "\<forall>row \<in> set (map (\<lambda>row. row @ [0]) B). length row = nat (pws div 2) + 1 \<and> last row = 0"
    by simp
  show "\<forall>row \<in> set S. length (map cmod (rfft row)) = nat (pws div 2) + 1"
    using prod(2) by simp
qed

lemma bank_kw_validation:
  "get_waveform_and_window_properties (contiguous2 [[1, 2, 3, 4, 5, 6, 7, 8]]) (kw_channel bank_kw)
         (kw_sample_frequency bank_kw) (kw_frame_shift bank_kw) (kw_frame_length bank_kw)
         (kw_round_to_power_of_two bank_kw) (kw_preemphasis_coefficient bank_kw)
     = Inr (contiguous [1, 2, 3, 4, 5, 6, 7, 8], 4, 8, 8)"
  by (simp add: get_waveform_and_window_properties_def MILLISECONDS_TO_SECONDS_def
      next_power_of_2_def bit_length_def Let_def contiguous_def contiguous2_def bank_kw_def
      defaults_def)

lemma bank_kw_mel_banks:
  "\<exists>B cf. get_mel_banks (kw_num_mel_bins bank_kw) 8 (kw_sample_frequency bank_kw)
           (kw_low_freq bank_kw) (kw_high_freq bank_kw) (kw_vtln_low bank_kw) (kw_vtln_high bank_kw)
           (kw_vtln_warp bank_kw) = Inr (B, cf)"
  using mel_banks_sample by (simp add: bank_kw_def defaults_def)

theorem fbank_nyquist_bin_unused_witness:
  "\<exists>S E B cf F.
      get_window rand_half (contiguous [1, 2, 3, 4, 5, 6, 7, 8]) 8 8 4 (kw_window_type bank_kw)
        (kw_blackman_coeff bank_kw) (kw_snip_edges bank_kw) (kw_raw_energy bank_kw)
        (kw_energy_floor bank_kw) (kw_dither bank_kw) (kw_remove_dc_offset bank_kw)
        (kw_preemphasis_coefficient bank_kw) = Inr (S, E)
    \<and> get_mel_banks (kw_num_mel_bins bank_kw) 8 (kw_sample_frequency bank_kw)
           (kw_low_freq bank_kw) (kw_high_freq bank_kw) (kw_vtln_low bank_kw) (kw_vtln_high bank_kw)
           (kw_vtln_warp bank_kw) = Inr (B, cf)
    \<and> S \<noteq> [] \<and> length B = 4
    \<and> (\<forall>row \<in> set B. length row = 4)
    \<and> (\<forall>row \<in> set S. length (map cmod (rfft row)) = 5)
    \<and> fbank rand_half bank_kw (contiguous2 [[1, 2, 3, 4, 5, 6, 7, 8]]) = Inr (Matrix F)
    \<and> fbank_low_bins rand_half bank_kw (contiguous2 [[1, 2, 3, 4, 5, 6, 7, 8]]) = Inr (Matrix F)
    \<and> length F = length S \<and> (\<forall>row \<in> set F. length row = 4)"
proof -
  let ?w = "contiguous2 [[1, 2, 3, 4, 5, 6, 7, 8]]"
  from bank_kw_mel_banks obtain B cf where
    bank: "get_mel_banks (kw_num_mel_bins bank_kw) 8 (kw_sample_frequency bank_kw)
           (kw_low_freq bank_kw) (kw_high_freq bank_kw) (kw_vtln_low bank_kw) (kw_vtln_high bank_kw)
           (kw_vtln_warp bank_kw) = Inr (B, cf)" by blast
  have kw: "kw_window_type bank_kw = POVEY" "0 \<le> kw_energy_floor bank_kw" "kw_snip_edges bank_kw"
      "\<not> kw_use_energy bank_kw" "\<not> kw_subtract_mean bank_kw"
    and long: "\<not> real (length (v_elems (contiguous [1, 2, 3, 4, 5, 6, 7, 8 :: real])))
                 < kw_min_duration bank_kw * kw_sample_frequency bank_kw"
    and ok: "view_ok (contiguous [1, 2, 3, 4, 5, 6, 7, 8])"
    and nb: "nat (kw_num_mel_bins bank_kw) = 4"
    by (simp_all add: bank_kw_def defaults_def view_ok_def contiguous_def)
  from fbank_ok[OF bank_kw_validation long bank kw ok, of rand_half] obtain S E F where
    win: "get_window rand_half (contiguous [1, 2, 3, 4, 5, 6, 7, 8]) 8 8 4 (kw_window_type bank_kw)
        (kw_blackman_coeff bank_kw) (kw_snip_edges bank_kw) (kw_raw_energy bank_kw)
        (kw_energy_floor bank_kw) (kw_dither bank_kw) (kw_remove_dc_offset bank_kw)
        (kw_preemphasis_coefficient bank_kw) = Inr (S, E)"
    and F: "fbank rand_half bank_kw ?w = Inr (Matrix F)" "F \<noteq> []" "length F = length S"
      "\<forall>row \<in> set F. length row = nat (kw_num_mel_bins bank_kw)"
    by blast
  from fbank_nyquist_bin_unused[of rand_half bank_kw ?w "contiguous [1, 2, 3, 4, 5, 6, 7, 8]" 4 8 8 S E B cf]
    bank_kw_validation win bank
  have eq: "fbank rand_half bank_kw ?w = fbank_low_bins rand_half bank_kw ?w"
    and shapes: "\<forall>row \<in> set B. length row = nat (8 div 2)"
      "\<forall>row \<in> set S. length (map cmod (rfft row)) = nat (8 div 2) + 1"
    by blast+
  have "length B = 4" using get_mel_banks_shape(1)[OF bank] nb by simp
  moreover have "S \<noteq> []" using F(2,3) by auto
  moreover have "fbank_low_bins rand_half bank_kw ?w = Inr (Matrix F)" using eq F(1) by simp
  ultimately show ?thesis
    using win bank F shapes nb by (intro exI[of _ S] exI[of _ E] exI[of _ B] exI[of _ cf] exI[of _ F]) simp
qed

lemma get_dct_matrix_column0:
  assumes "0 < nmb" "1 \<le> nc"
  shows "\<exists>D. get_dct_matrix nc nmb = Inr D \<and> length D = nat nmb
           \<and> (\<forall>t < nat nmb. D ! t \<noteq> [] \<and> D ! t ! 0 = sqrt (1 / real_of_int nmb))"
  using assms
  by (auto simp: get_dct_matrix_def create_dct_def Let_def slice_to_def)

lemma c0_kw_fbank:
  fixes kw :: options
  defines "kw \<equiv> c0_kw\<lparr>kw_frame_length := 1 / 2, kw_frame_shift := 1 / 4\<rparr>"
  defines "kw' \<equiv> kw\<lparr>kw_subtract_mean := False, kw_use_log_fbank := True, kw_use_power := True\<rparr>"
  shows "\<exists>F. fbank rand_half kw' (contiguous2 [[1, 2, 3, 4, 5, 6, 7, 8]]) = Inr (Matrix F)
           \<and> F \<noteq> [] \<and> (\<forall>row \<in> set F. length row = 4)"
proof -
  have val: "get_waveform_and_window_properties (contiguous2 [[1, 2, 3, 4, 5, 6, 7, 8]]) (kw_channel kw')
         (kw_sample_frequency kw') (kw_frame_shift kw') (kw_frame_length kw')
         (kw_round_to_power_of_two kw') (kw_preemphasis_coefficient kw')
     = Inr (contiguous [1, 2, 3, 4, 5, 6, 7, 8], 4, 8, 8)"
    by (simp add: get_waveform_and_window_properties_def MILLISECONDS_TO_SECONDS_def
        next_power_of_2_def bit_length_def Let_def contiguous_def contiguous2_def kw'_def kw_def
        c0_kw_def defaults_def)
  from mel_banks_sample obtain B cf where
    bank: "get_mel_banks (kw_num_mel_bins kw') 8 (kw_sample_frequency kw')
           (kw_low_freq kw') (kw_high_freq kw') (kw_vtln_low kw') (kw_vtln_high kw')
           (kw_vtln_warp kw') = Inr (B, cf)"
    by (auto simp: kw'_def kw_def c0_kw_def defaults_def)
  have kw: "kw_window_type kw' = POVEY" "0 \<le> kw_energy_floor kw'" "kw_snip_edges kw'"
      "\<not> kw_use_energy kw'" "\<not> kw_subtract_mean kw'"
    and long: "\<not> real (length (v_elems (contiguous [1, 2, 3, 4, 5, 6, 7, 8 :: real])))
                 < kw_min_duration kw' * kw_sample_frequency kw'"
    and ok: "view_ok (contiguous [1, 2, 3, 4, 5, 6, 7, 8])"
    and nb: "nat (kw_num_mel_bins kw') = 4"
    by (simp_all add: kw'_def kw_def c0_kw_def defaults_def view_ok_def contiguous_def)
  from fbank_ok[OF val long bank kw ok, of rand_half] nb show ?thesis by auto
qed

text \<open>
  C8. With \<open>cepstral_lifter = 0\<close> and \<open>use_energy = false\<close>, column 0 of the cepstra before the
  HTK reordering is \<open>sqrt (1 / num_mel_bins)\<close> times the sum of the frame's log mel energies
  (the row of the feature matrix \<open>fbank\<close> returned); with \<open>htk_compat\<close> and
  \<open>subtract_mean\<close> off these cepstra are what \<open>mfcc\<close> returns.
\<close>

theorem mfcc_c0:
  assumes "kw_cepstral_lifter kw = 0" "\<not> kw_use_energy kw"
    and "0 < kw_num_mel_bins kw" "1 \<le> kw_num_ceps kw"
    and "\<forall>row \<in> set feature. length row = nat (kw_num_mel_bins kw)"
  shows "\<exists>C. mfcc_cepstra kw feature = Inr C \<and> length C = length feature
           \<and> (\<forall>i < length feature. C ! i \<noteq> []
                 \<and> C ! i ! 0 = sqrt (1 / real_of_int (kw_num_mel_bins kw)) * sum_list (feature ! i))
           \<and> (fbank rand (kw\<lparr>kw_subtract_mean := False, kw_use_log_fbank := True,
                                 kw_use_power := True\<rparr>) waveform = Inr (Matrix feature)
                \<and> kw_num_ceps kw \<le> kw_num_mel_bins kw
                \<and> \<not> kw_htk_compat kw \<and> \<not> kw_subtract_mean kw
                \<longrightarrow> mfcc rand kw waveform = Inr (Matrix C))"
proof -
  let ?n = "nat (kw_num_mel_bins kw)"
  let ?c = "sqrt (1 / real_of_int (kw_num_mel_bins kw))"
  from get_dct_matrix_column0[OF assms(3,4)] obtain D where
    D: "get_dct_matrix (kw_num_ceps kw) (kw_num_mel_bins kw) = Inr D" "length D = ?n"
    and D0: "\<forall>t < ?n. D ! t \<noteq> [] \<and> D ! t ! 0 = ?c"
    by blast
  have npos: "0 < ?n" using assms(3) by simp
  have ncD: "0 < ncols D"
  proof (cases D)
    case Nil
    then show ?thesis using D(2) npos by simp
  next
    case (Cons r rs)
    have "D ! 0 \<noteq> []" using D0 npos by blast
    then show ?thesis using Cons by (simp add: ncols_def)
  qed
  define C where "C = map (\<lambda>row. map (\<lambda>j. \<Sum>t < length D. row ! t * D ! t ! j) [0..<ncols D]) feature"
  have mm: "torch_mm feature D = Inr C"
    using assms(5) D(2) by (simp add: torch_mm_def C_def)
  have cep: "mfcc_cepstra kw feature = Inr C"
    using assms(1,2) D(1) mm by (simp add: mfcc_cepstra_def Let_def)
  have col0: "C ! i \<noteq> [] \<and> C ! i ! 0 = ?c * sum_list (feature ! i)" if "i < length feature" for i
  proof -
    have len: "length (feature ! i) = ?n" using that assms(5) by simp
    have "C ! i ! 0 = (\<Sum>t < ?n. feature ! i ! t * D ! t ! 0)"
      using that ncD by (simp add: C_def D(2) upt_conv_Cons)
    also have "\<dots> = (\<Sum>t < ?n. feature ! i ! t * ?c)"
      using D0 by (intro sum.cong) auto
    also have "\<dots> = ?c * (\<Sum>t < ?n. feature ! i ! t)"
      by (simp add: sum_distrib_left mult.commute)
    also have "(\<Sum>t < ?n. feature ! i ! t) = sum_list (feature ! i)"
      using len by (simp add: sum_list_sum_nth atLeast0LessThan)
    finally have "C ! i ! 0 = ?c * sum_list (feature ! i)" .
    moreover have "C ! i \<noteq> []" using that ncD by (simp add: C_def)
    ultimately show ?thesis by simp
  qed
  have "mfcc rand kw waveform = Inr (Matrix C)"
    if "fbank rand (kw\<lparr>kw_subtract_mean := False, kw_use_log_fbank := True,
                        kw_use_power := True\<rparr>) waveform = Inr (Matrix feature)"
      "kw_num_ceps kw \<le> kw_num_mel_bins kw" "\<not> kw_htk_compat kw" "\<not> kw_subtract_mean kw"
    using that cep by (simp add: mfcc_def subtract_column_mean_def)
  moreover have "length C = length feature" by (simp add: C_def)
  ultimately show ?thesis using cep col0 by blast
qed

theorem mfcc_c0_witness:
  "(\<exists>C. mfcc_cepstra c0_kw [[1, 2, 3, 4]] = Inr C \<and> length C = 1 \<and> C ! 0 ! 0 = sqrt (1 / 4) * 10)
   \<and> (\<exists>F C. fbank rand_half
               (c0_kw\<lparr>kw_frame_length := 1 / 2, kw_frame_shift := 1 / 4, kw_subtract_mean := False,
                       kw_use_log_fbank := True, kw_use_power := True\<rparr>)
               (contiguous2 [[1, 2, 3, 4, 5, 6, 7, 8]]) = Inr (Matrix F)
          \<and> F \<noteq> []
          \<and> mfcc rand_half (c0_kw\<lparr>kw_frame_length := 1 / 2, kw_frame_shift := 1 / 4\<rparr>)
               (contiguous2 [[1, 2, 3, 4, 5, 6, 7, 8]]) = Inr (Matrix C)
          \<and> length C = length F
          \<and> (\<forall>i < length F. C ! i ! 0 = sqrt (1 / 4) * sum_list (F ! i)))"
proof (rule conjI)
  show "\<exists>C. mfcc_cepstra c0_kw [[1, 2, 3, 4]] = Inr C \<and> length C = 1 \<and> C ! 0 ! 0 = sqrt (1 / 4) * 10"
    using mfcc_c0 [of c0_kw "[[1, 2, 3, 4]]" rand_half "contiguous2 []"]
    by (auto simp: c0_kw_def defaults_def)
next
  let ?kw = "c0_kw\<lparr>kw_frame_length := 1 / 2, kw_frame_shift := 1 / 4\<rparr>"
  let ?w = "contiguous2 [[1, 2, 3, 4, 5, 6, 7, 8]]"
  from c0_kw_fbank obtain F where
    F: "fbank rand_half (?kw\<lparr>kw_subtract_mean := False, kw_use_log_fbank := True,
                              kw_use_power := True\<rparr>) ?w = Inr (Matrix F)"
      "F \<noteq> []" "\<forall>row \<in> set F. length row = 4"
    by blast
  have kw: "kw_cepstral_lifter ?kw = 0" "\<not> kw_use_energy ?kw" "0 < kw_num_mel_bins ?kw"
      "1 \<le> kw_num_ceps ?kw" "kw_num_mel_bins ?kw = 4"
      "kw_num_ceps ?kw \<le> kw_num_mel_bins ?kw" "\<not> kw_htk_compat ?kw" "\<not> kw_subtract_mean ?kw"
    by (simp_all add: c0_kw_def defaults_def)
  have rows: "\<forall>row \<in> set F. length row = nat (kw_num_mel_bins ?kw)"
    using F(3) kw(5) by simp
  from mfcc_c0 [OF kw(1-4) rows, of rand_half ?w] F(1) kw(5-8) obtain C where
    "mfcc rand_half ?kw ?w = Inr (Matrix C)" "length C = length F"
    "\<forall>i < length F. C ! i ! 0 = sqrt (1 / 4) * sum_list (F ! i)"
    by auto
  with F(1,2) show "\<exists>F C. fbank rand_half
               (c0_kw\<lparr>kw_frame_length := 1 / 2, kw_frame_shift := 1 / 4, kw_subtract_mean := False,
                       kw_use_log_fbank := True, kw_use_power := True\<rparr>) ?w = Inr (Matrix F)
          \<and> F \<noteq> [] \<and> mfcc rand_half ?kw ?w = Inr (Matrix C) \<and> length C = length F
          \<and> (\<forall>i < length F. C ! i ! 0 = sqrt (1 / 4) * sum_list (F ! i))"
    by blast
qed

subsection \<open>VTLN warp\<close>

text \<open>
  The code computes \<open>vtln_F\<close> element by element whenever its assertions pass. When the
  inflection points are in order, \<open>l \<le> h\<close>, the function fixes \<open>low_freq\<close> and
  \<open>high_freq\<close>, is \<open>f / warp\<close> on \<open>[l, h]\<close>, is the identity outside
  \<open>[low_freq, high_freq]\<close> and is continuous at \<open>l\<close> and \<open>h\<close>.
\<close>

lemma masked_assign_map:
  "masked_assign (map r xs) (map b xs) (map v xs) = map (\<lambda>x. if b x then v x else r x) xs"
  by (induction xs) (auto simp: masked_assign_def)

lemma masked_assign_map_id:
  "masked_assign (map r xs) (map b xs) xs = map (\<lambda>x. if b x then x else r x) xs"
  using masked_assign_map[of r xs b "\<lambda>x. x"] by simp

lemma vtln_warp_freq_pointwise:
  assumes "low < vlc" "vhc < high" "warp \<noteq> 0" "low < vlc * max 1 warp" "vhc * min 1 warp < high"
  shows "vtln_warp_freq vlc vhc low high warp freq = Inr (map (vtln_F vlc vhc low high warp) freq)"
  using assms
  by (simp add: vtln_warp_freq_def Let_def masked_assign_map masked_assign_map_id vtln_F_def not_less)


lemma isCont_glue:
  fixes A B :: "real \<Rightarrow> real"
  assumes "isCont A a" "isCont B a" "A a = B a"
  shows "isCont (\<lambda>x. if x < a then A x else B x) a"
proof -
  have eq: "(\<lambda>x. if x < a then A x else B x) = (\<lambda>x. if x \<le> a then A x else B x)"
    using assms(3) by (auto simp: fun_eq_iff)
  have 1: "continuous (at_left a) A"
    using assms(1) by (simp add: continuous_at_imp_continuous_at_within)
  have "(B \<longlongrightarrow> B a) (at_right a)"
    using assms(2) by (simp add: isCont_def filterlim_at_split)
  then have 2: "(B \<longlongrightarrow> A a) (at_right a)" using assms(3) by simp
  show ?thesis unfolding eq using isCont_If_ge[OF 1 2] .
qed

lemma vtln_F_fixpoints:
  assumes "low < vlc * max 1 warp" "vhc * min 1 warp < high" "vlc * max 1 warp \<le> vhc * min 1 warp"
  shows "vtln_F vlc vhc low high warp low = low"
    and "vtln_F vlc vhc low high warp high = high"
    and "vlc * max 1 warp \<le> f \<Longrightarrow> f \<le> vhc * min 1 warp \<Longrightarrow> vtln_F vlc vhc low high warp f = f / warp"
    and "f < low \<or> high < f \<Longrightarrow> vtln_F vlc vhc low high warp f = f"
proof -
  show "vtln_F vlc vhc low high warp low = low" "vtln_F vlc vhc low high warp high = high"
    "f < low \<or> high < f \<Longrightarrow> vtln_F vlc vhc low high warp f = f"
    using assms by (auto simp: vtln_F_def Let_def)
  assume f: "vlc * max 1 warp \<le> f" "f \<le> vhc * min 1 warp"
  let ?h = "vhc * min 1 warp"
  have ne: "high - ?h \<noteq> 0" using assms(2) by simp
  have "high + (high - ?h / warp) / (high - ?h) * (?h - high) = ?h / warp"
  proof -
    define x where "x = (high - ?h / warp) / (high - ?h)"
    have "x * (high - ?h) = high - ?h / warp" using ne by (simp add: x_def)
    moreover have "x * (?h - high) = - (x * (high - ?h))" by (simp add: algebra_simps)
    ultimately have "high + x * (?h - high) = ?h / warp" by simp
    then show ?thesis by (simp add: x_def)
  qed
  then show "vtln_F vlc vhc low high warp f = f / warp"
    using f assms by (auto simp: vtln_F_def Let_def)
qed


lemma vtln_F_continuous:
  fixes vlc vhc low high warp :: real
  defines "l \<equiv> vlc * max 1 warp" and "h \<equiv> vhc * min 1 warp"
  assumes "low < l" "h < high" "l \<le> h"
  shows "isCont (vtln_F vlc vhc low high warp) l"
    and "isCont (vtln_F vlc vhc low high warp) h"
proof -
  define A where "A = (\<lambda>x. low + (l / warp - low) / (l - low) * (x - low))"
  define B where "B = (\<lambda>x::real. x / warp)"
  define C where "C = (\<lambda>x. high + (high - h / warp) / (high - h) * (x - high))"
  have F: "vtln_F vlc vhc low high warp =
             (\<lambda>f. if f < low \<or> f > high then f else if f < l then A f else if f < h then B f else C f)"
    by (simp add: vtln_F_def Let_def fun_eq_iff A_def B_def C_def l_def h_def)
  have cA: "isCont A x" for x
    unfolding A_def by (intro continuous_intros)
  have cB: "isCont B x" for x
    unfolding B_def divide_inverse by (intro continuous_intros)
  have cC: "isCont C x" for x
    unfolding C_def by (intro continuous_intros)
  have Al: "A l = B l"
  proof -
    define s where "s = (l / warp - low) / (l - low)"
    have "s * (l - low) = l / warp - low" using assms(3) by (simp add: s_def)
    then show ?thesis by (simp add: A_def B_def s_def)
  qed
  have Ch: "B h = C h"
  proof -
    define s where "s = (high - h / warp) / (high - h)"
    have "s * (high - h) = high - h / warp" using assms(4) by (simp add: s_def)
    moreover have "s * (h - high) = - (s * (high - h))" by (simp add: algebra_simps)
    ultimately show ?thesis by (simp add: B_def C_def s_def)
  qed
  have near: "isCont (vtln_F vlc vhc low high warp) a"
    if "open S" "a \<in> S" "\<And>x. x \<in> S \<Longrightarrow> vtln_F vlc vhc low high warp x = G x" "isCont G a"
    for S a G
  proof -
    have "eventually (\<lambda>x. vtln_F vlc vhc low high warp x = G x) (nhds a)"
      using that(1-3) by (auto simp: eventually_nhds)
    then show ?thesis using isCont_cong that(4) by blast
  qed
  show "isCont (vtln_F vlc vhc low high warp) l"
  proof (cases "l < h")
    case True
    show ?thesis
    proof (rule near[where S = "{low<..<h}" and G = "\<lambda>x. if x < l then A x else B x"])
      show "isCont (\<lambda>x. if x < l then A x else B x) l" by (rule isCont_glue[OF cA cB Al])
    qed (use True assms in \<open>auto simp: F\<close>)
  next
    case False
    then have lh: "l = h" using assms(5) by simp
    show ?thesis
    proof (rule near[where S = "{low<..<high}" and G = "\<lambda>x. if x < l then A x else C x"])
      show "isCont (\<lambda>x. if x < l then A x else C x) l"
        using Al Ch lh by (intro isCont_glue cA cC) simp
    qed (use lh assms in \<open>auto simp: F\<close>)
  qed
  show "isCont (vtln_F vlc vhc low high warp) h"
  proof (cases "l < h")
    case True
    show ?thesis
    proof (rule near[where S = "{l<..<high}" and G = "\<lambda>x. if x < h then B x else C x"])
      show "isCont (\<lambda>x. if x < h then B x else C x) h" by (rule isCont_glue[OF cB cC Ch])
    qed (use True assms in \<open>auto simp: F\<close>)
  next
    case False
    then have lh: "l = h" using assms(5) by simp
    show ?thesis
    proof (rule near[where S = "{low<..<high}" and G = "\<lambda>x. if x < h then A x else C x"])
      show "isCont (\<lambda>x. if x < h then A x else C x) h"
        using Al Ch lh by (intro isCont_glue cA cC) simp
    qed (use lh assms in \<open>auto simp: F\<close>)
  qed
qed


lemma vtln_warp_mel_freq_pointwise:
  assumes "low < vlc" "vhc < high" "warp \<noteq> 0" "low < vlc * max 1 warp" "vhc * min 1 warp < high"
  shows "vtln_warp_mel_freq vlc vhc low high warp mel_freq
           = Inr (mel_scale (map (vtln_F vlc vhc low high warp) (inverse_mel_scale mel_freq)))"
  by (simp add: vtln_warp_mel_freq_def vtln_warp_freq_pointwise[OF assms] err_bind_def)

lemma mel_banks_accepts_failing_warp:
  "\<not> isl (get_mel_banks 23 512 16000 20 0 7000 7500 (6 / 5))"
  by (simp add: get_mel_banks_def Let_def vtln_warp_mel_freq_pointwise err_bind_def)

text \<open>
  C6. The assertions of \<open>vtln_warp_freq\<close> (and those of \<open>get_mel_banks\<close>) do not put the
  inflection points in order. With \<open>vtln_low = 7000\<close>, \<open>vtln_high = 7500\<close>,
  \<open>low_freq = 20\<close>, \<open>high_freq = 8000\<close> and warp factor \<open>1.2\<close> every assertion passes,
  \<open>l = 8400\<close> lies above \<open>high_freq\<close>, the below-\<open>l\<close> rule overwrites the value at
  \<open>high_freq\<close>, and \<open>F(high_freq)\<close> is about \<open>6666.8\<close> instead of \<open>8000\<close>; the mel bank
  builder accepts the same options.
\<close>

theorem vtln_warp_high_freq_moved:
  "vtln_warp_freq 7000 7500 20 8000 (6 / 5) [8000] = Inr [2793400 / 419]
   \<and> \<not> isl (get_mel_banks 23 512 16000 20 0 7000 7500 (6 / 5))"
  using mel_banks_accepts_failing_warp
  by (simp add: vtln_warp_freq_def Let_def masked_assign_def)

subsection \<open>Resampler\<close>

lemma identity_tap_centre: "0 < lpw \<Longrightarrow> identity_tap lpw 0 = 99 / 100"
  by (simp add: identity_tap_def)

lemma upto_single: "[i..i] = [i::int]"
  by (simp add: upto.simps)

lemma tap_pointwise:
  fixes lpw :: int and x :: int
  defines "t \<equiv> min (max ((- real_of_int 0 / real_of_int 1 + real_of_int x / real_of_int 1)
                              * (real_of_int (min 1 1) * (99 / 100)))
                          (- real_of_int lpw)) (real_of_int lpw) * pi"
  shows "(if t = 0 then 1 else sin t / t) * (cos (t / real_of_int lpw / 2)) ^ 2
           * (real_of_int (min 1 1) * (99 / 100) / real_of_int 1)
         = identity_tap lpw x"
proof -
  have "t = min (max (real_of_int x * (99 / 100)) (- real_of_int lpw)) (real_of_int lpw) * pi"
    unfolding t_def by simp
  then show ?thesis
    unfolding identity_tap_def Let_def by (simp only: min.idem of_int_1 div_by_1)
qed

lemma sinc_kernel_identity:
  assumes "0 < lpw"
  shows "get_sinc_resample_kernel 1 1 lpw
           = Inr ([map (identity_tap lpw) [- int (identity_width lpw)..int (identity_width lpw)]],
                  int (identity_width lpw))"
proof -
  have nz: "(real_of_int (min 1 1) * (99 / 100) = (0::real)) = False" by simp
  have "0 \<le> \<lceil>real_of_int lpw / (99 / 100)\<rceil>" using assms by (simp add: le_ceiling_iff)
  then have W: "\<lceil>real_of_int (lpw * 1) / (real_of_int (min 1 1) * (99 / 100))\<rceil> = int (identity_width lpw)"
    by (simp add: identity_width_def)
  have up: "[0..1 - 1] = [0::int]" by (simp add: upto_single)
  have idx: "int (identity_width lpw) + 1 - 1 = int (identity_width lpw)" by simp
  have lp: "(\<not> 0 < lpw) = False" using assms by simp
  have o1: "((1::int) = 0) = False" by simp
  show ?thesis
    unfolding get_sinc_resample_kernel_def Let_def
    apply (simp only: lp nz W up idx o1 if_False list.map map_map o_def map2_map_same tap_pointwise)
    done
qed

lemma concat_matT_single: "concat (matT [s]) = s"
proof -
  have "concat (map (\<lambda>j. [s ! j]) [0..<length s]) = map (\<lambda>j. s ! j) [0..<length s]"
    by (induction "length s" arbitrary: s rule: nat.induct) (simp_all add: concat_map_singleton)
  then show ?thesis by (simp add: matT_def ncols_def map_nth)
qed

lemma conv1d_single:
  "concat (matT (conv1d x [k] 1))
     = map (\<lambda>j. \<Sum>t < length k. x ! (j + t) * k ! t) [0..<length x - length k + 1]"
  by (simp add: conv1d_def concat_matT_single)

lemma padded_nth:
  "(replicate W 0 @ row @ replicate (Suc W) (0::real)) ! k
     = (if W \<le> k \<and> k < W + length row then row ! (k - W) else 0)"
  if "k < 2 * W + 1 + length row"
  using that by (auto simp: nth_append simp del: replicate_Suc)

lemma tap_reindex:
  fixes T :: "int \<Rightarrow> real" and x :: "real list"
  shows "(\<Sum>t < 2 * W + 1. (if W \<le> j + t \<and> j + t < W + n then x ! (j + t - W) else 0)
                            * T (int t - int W))
       = (\<Sum>i < n. if \<bar>int i - int j\<bar> \<le> int W then x ! i * T (int i - int j) else 0)"
proof -
  let ?P = "\<lambda>t. W \<le> j + t \<and> j + t < W + n"
  let ?Q = "\<lambda>i. \<bar>int i - int j\<bar> \<le> int W"
  have "(\<Sum>t < 2 * W + 1. (if ?P t then x ! (j + t - W) else 0) * T (int t - int W))
      = (\<Sum>t < 2 * W + 1. if ?P t then x ! (j + t - W) * T (int t - int W) else 0)"
    by (intro sum.cong) auto
  also have "\<dots> = (\<Sum>t \<in> {t \<in> {..<2 * W + 1}. ?P t}. x ! (j + t - W) * T (int t - int W))"
    by (rule sum.inter_filter[symmetric]) (rule finite_lessThan)
  also have "\<dots> = (\<Sum>i \<in> {i \<in> {..<n}. ?Q i}. x ! i * T (int i - int j))"
    by (rule sum.reindex_bij_witness[where i = "\<lambda>i. i + W - j" and j = "\<lambda>t. j + t - W"])
       (auto simp: of_nat_diff intro!: arg_cong[where f = T])
  also have "\<dots> = (\<Sum>i < n. if ?Q i then x ! i * T (int i - int j) else 0)"
    by (rule sum.inter_filter) (rule finite_lessThan)
  finally show ?thesis .
qed

lemma resample_row:
  fixes T :: "int \<Rightarrow> real"
  assumes "length row = n"
  shows "take n (concat (matT (conv1d (replicate W 0 @ row @ replicate (nat (int W + 1)) 0)
                                 [map T [- int W..int W]] 1)))
       = map (\<lambda>j. \<Sum>i < n. if \<bar>int i - int j\<bar> \<le> int W then row ! i * T (int i - int j) else 0)
             [0..<n]"
proof -
  let ?x = "replicate W 0 @ row @ replicate (Suc W) (0::real)"
  let ?K = "map T [- int W..int W]"
  have lenK: "length ?K = 2 * W + 1" by simp
  have lenx: "length ?x = 2 * W + 1 + n" using assms by simp
  have suc: "nat (int W + 1) = Suc W" by simp
  have Kt: "?K ! t = T (int t - int W)" if "t < 2 * W + 1" for t
  proof -
    have "[- int W..int W] ! t = - int W + int t" using that by (intro nth_upto) simp
    then show ?thesis using that by (simp add: algebra_simps)
  qed
  have "take n (concat (matT (conv1d ?x [?K] 1)))
      = map (\<lambda>j. \<Sum>t < 2 * W + 1. ?x ! (j + t) * ?K ! t) [0..<n]"
    unfolding conv1d_single lenK lenx by (simp add: take_map)
  also have "\<dots> = map (\<lambda>j. \<Sum>t < 2 * W + 1.
                 (if W \<le> j + t \<and> j + t < W + n then row ! (j + t - W) else 0) * T (int t - int W))
             [0..<n]"
  proof (rule map_cong[OF refl], rule sum.cong[OF refl])
    fix j t assume "j \<in> set [0..<n]" "t \<in> {..<2 * W + 1}"
    then have j: "j < n" and t: "t < 2 * W + 1" by simp_all
    have "j + t < 2 * W + 1 + length row" using j t assms by simp
    from padded_nth[OF this] Kt[OF t] assms
    show "?x ! (j + t) * ?K ! t
        = (if W \<le> j + t \<and> j + t < W + n then row ! (j + t - W) else 0) * T (int t - int W)"
      by simp
  qed
  also have "\<dots> = map (\<lambda>j. \<Sum>i < n. if \<bar>int i - int j\<bar> \<le> int W then row ! i * T (int i - int j) else 0)
             [0..<n]"
    by (simp only: tap_reindex)
  finally show ?thesis by (simp only: suc)
qed

lemma resample_same_rate:
  assumes "1 \<le> f" "0 < lpw" "w \<noteq> []" "\<forall>row \<in> set w. length row = n"
  shows "resample_waveform w f f lpw
           = Inr (map (\<lambda>row. map (\<lambda>j. \<Sum>i < n. if \<bar>int i - int j\<bar> \<le> int (identity_width lpw)
                                              then row ! i * identity_tap lpw (int i - int j) else 0)
                                [0..<n]) w)"
proof -
  define k where "k = py_int f"
  have k: "1 \<le> k" using assms(1) by (simp add: k_def py_int_def le_floor_iff)
  have g: "gcd k k = k" "k div k = 1" "k \<noteq> 0" using k by simp_all
  have nc: "ncols w = n" using assms(3,4) by (cases w) (simp_all add: ncols_def)
  have tl: "py_int (real_of_int \<lceil>real_of_int (1 * int n) / real_of_int 1\<rceil>) = int n"
    by (simp add: py_int_def)
  have st: "slice_to xs (int n) = take n xs" for xs :: "real list"
    by (simp add: slice_to_def)
  have f0: "(\<not> (0 < f \<and> 0 < f)) = False" using assms(1) by simp
  have rows: "map (\<lambda>row. take n (concat (matT (conv1d
                 (replicate (identity_width lpw) 0 @ row
                    @ replicate (nat (int (identity_width lpw) + 1)) 0)
                 [map (identity_tap lpw) [- int (identity_width lpw)..int (identity_width lpw)]]
                 1)))) w
            = map (\<lambda>row. map (\<lambda>j. \<Sum>i < n. if \<bar>int i - int j\<bar> \<le> int (identity_width lpw)
                                              then row ! i * identity_tap lpw (int i - int j) else 0)
                                [0..<n]) w"
  proof (rule map_cong[OF refl])
    fix row assume "row \<in> set w"
    then have "length row = n" using assms(4) by blast
    from resample_row[OF this, of "identity_width lpw" "identity_tap lpw"]
    show "take n (concat (matT (conv1d
                 (replicate (identity_width lpw) 0 @ row
                    @ replicate (nat (int (identity_width lpw) + 1)) 0)
                 [map (identity_tap lpw) [- int (identity_width lpw)..int (identity_width lpw)]]
                 1)))
        = map (\<lambda>j. \<Sum>i < n. if \<bar>int i - int j\<bar> \<le> int (identity_width lpw)
                                              then row ! i * identity_tap lpw (int i - int j) else 0)
                                [0..<n]" .
  qed
  have n1: "nat 1 = 1" by simp
  show ?thesis
    unfolding resample_waveform_def Let_def k_def[symmetric]
    using assms(3)
    by (simp only: f0 g if_False sinc_kernel_identity[OF assms(2)] err_bind_simps prod.case nc tl st
        map_map o_def nat_int n1 rows length_0_conv)
qed

lemma resample_fraction_rate:
  assumes "0 < f" "f < 1"
  shows "resample_waveform w f f lpw = Inl ZeroDivisionError"
proof -
  have "\<lfloor>f\<rfloor> = 0" using assms by (simp add: floor_eq_iff)
  then show ?thesis using assms by (simp add: resample_waveform_def py_int_def Let_def)
qed

text \<open>
  C1, as stated, fails: at equal rates a one-sample waveform comes back scaled by 0.99.
\<close>

theorem resample_same_rate_counterexample:
  "resample_waveform [[1]] 1 1 6 = Inr [[99 / 100]] \<and> resample_waveform [[1]] 1 1 6 \<noteq> Inr [[1]]"
  using resample_same_rate [of 1 6 "[[1]]" 1]
  by (simp add: identity_tap_centre)

text \<open>
  C1, amended. For a waveform with at least one channel, a frequency of at least 1 and
  a positive filter width, resampling at equal rates returns a waveform of the shape of
  the input (the target length is the input length), which is the input filtered by the
  single phase of the kernel bank and not the input itself: output sample \<open>j\<close> of a row
  \<open>x\<close> is the sum of \<open>x\<^sub>i * tap (i - j)\<close> over the \<open>i\<close> within the half-width of \<open>j\<close>, and the
  centre tap is 0.99.
\<close>

theorem resample_same_rate_filters:
  assumes "1 \<le> f" "0 < lpw" "w \<noteq> []" "\<forall>row \<in> set w. length row = n"
  shows "resample_waveform w f f lpw
           = Inr (map (\<lambda>row. map (\<lambda>j. \<Sum>i < n. if \<bar>int i - int j\<bar> \<le> int (identity_width lpw)
                                              then row ! i * identity_tap lpw (int i - int j) else 0)
                                [0..<n]) w)
       \<and> identity_tap lpw 0 = 99 / 100"
  using resample_same_rate[OF assms] identity_tap_centre[OF assms(2)] by simp

theorem resample_same_rate_filters_witness:
  "resample_waveform [[2], [4]] 16000 16000 6 = Inr [[99 / 50], [99 / 25]]"
  using resample_same_rate_filters [of 16000 6 "[[2], [4]]" 1]
  by simp

end
